theory Spec2Isabelle
  imports Complex_Main "HOL-Library.Sublist"
begin

section \<open>JavaScript values\<close>

text \<open>
  The values the receipt pipeline handles come out of \<^verbatim>\<open>JSON.parse\<close> and
  \<^verbatim>\<open>response.json()\<close>. A JSON number is an IEEE double that is never NaN: a finite
  value, or an infinity when the literal is beyond the double range. Only the sign and
  the magnitude of a number are used below, so a finite double is modelled by the real
  it denotes. Strings are lists of code units; \<^typ>\<open>char\<close> covers the code units
  U+0000 to U+00FF. An object is the list of its own properties, each key once.
  The value \<^verbatim>\<open>undefined\<close> is \<^term>\<open>None\<close> of an option.
\<close>

datatype number = Finite real | PosInfinity | NegInfinity

datatype json =
    JNull
  | JBool bool
  | JNum number
  | JStr string
  | JArr "json list"
  | JObj "(string \<times> json) list"

text \<open>\<^verbatim>\<open>Math.abs\<close>, and the comparisons \<^verbatim>\<open>x >= 0\<close> and \<^verbatim>\<open>x > 0\<close>.\<close>

fun Math_abs :: "number \<Rightarrow> number" where
  "Math_abs (Finite r) = Finite \<bar>r\<bar>"
| "Math_abs PosInfinity = PosInfinity"
| "Math_abs NegInfinity = PosInfinity"


fun positive :: "number \<Rightarrow> bool" where
  "positive (Finite r) = (0 < r)"
| "positive PosInfinity = True"
| "positive NegInfinity = False"

text \<open>Truthiness of a value, as \<^verbatim>\<open>if (v)\<close>, \<^verbatim>\<open>!v\<close>, \<^verbatim>\<open>v || d\<close> and \<^verbatim>\<open>v ? a : b\<close> read it.\<close>

fun truthy :: "json \<Rightarrow> bool" where
  "truthy JNull = False"
| "truthy (JBool b) = b"
| "truthy (JNum n) = (n \<noteq> Finite 0)"
| "truthy (JStr s) = (s \<noteq> [])"
| "truthy (JArr xs) = True"
| "truthy (JObj kvs) = True"

text \<open>
  Property reads on a value that is neither null nor undefined. \<open>getProp k v\<close> is
  \<^verbatim>\<open>v.k\<close> for one of the names the source reads (candidates, content, parts, text,
  amount, date, description, merchantName, category): only an object can have such a
  property, no prototype of a primitive or of an array defines one. \<open>elem0 v\<close> is
  \<^verbatim>\<open>v[0]\<close>: the first element of an array, the first code unit of a string, the
  property "0" of an object.
\<close>

fun getProp :: "string \<Rightarrow> json \<Rightarrow> json option" where
  "getProp k (JObj kvs) = map_of kvs k"
| "getProp k v = None"

fun elem0 :: "json \<Rightarrow> json option" where
  "elem0 (JArr xs) = (case xs of [] \<Rightarrow> None | x # rest \<Rightarrow> Some x)"
| "elem0 (JStr s) = (case s of [] \<Rightarrow> None | c # rest \<Rightarrow> Some (JStr [c]))"
| "elem0 (JObj kvs) = map_of kvs ''0''"
| "elem0 v = None"

text \<open>Optional chaining \<^verbatim>\<open>v?.k\<close>: undefined when \<open>v\<close> is undefined or null.\<close>

definition optChain :: "(json \<Rightarrow> json option) \<Rightarrow> json option \<Rightarrow> json option" where
  "optChain f v = (case v of None \<Rightarrow> None | Some JNull \<Rightarrow> None | Some x \<Rightarrow> f x)"

section \<open>Strings\<close>

text \<open>
  White space as \<^verbatim>\<open>String.prototype.trim\<close> and the regular expression class
  \<^verbatim>\<open>\s\<close> read it, among the code units of \<^typ>\<open>char\<close>: TAB, LF, VT, FF, CR,
  SPACE and NO-BREAK SPACE.
\<close>

definition isSpace :: "char \<Rightarrow> bool" where
  "isSpace c = (c \<in> set [CHR 0x09, CHR 0x0A, CHR 0x0B, CHR 0x0C, CHR 0x0D, CHR 0x20, CHR 0xA0])"

definition trim :: "string \<Rightarrow> string" where
  "trim s = rev (dropWhile isSpace (rev (dropWhile isSpace s)))"

text \<open>\<^verbatim>\<open>s.includes(t)\<close>: \<open>t\<close> occurs in \<open>s\<close> as a contiguous run.\<close>

fun includes_str :: "string \<Rightarrow> string \<Rightarrow> bool" where
  "includes_str [] t = (t = [])"
| "includes_str (c # cs) t = (prefix t (c # cs) \<or> includes_str cs t)"

text \<open>\<^verbatim>\<open>s.indexOf(c)\<close> and \<^verbatim>\<open>s.lastIndexOf(c)\<close> for a single code unit; -1 when absent.\<close>

fun indexOf :: "string \<Rightarrow> char \<Rightarrow> int" where
  "indexOf [] c = -1"
| "indexOf (x # xs) c =
     (if x = c then 0 else (let i = indexOf xs c in if i = -1 then -1 else i + 1))"

definition lastIndexOf :: "string \<Rightarrow> char \<Rightarrow> int" where
  "lastIndexOf s c =
     (let i = indexOf (rev s) c in if i = -1 then -1 else int (length s) - 1 - i)"

text \<open>
  \<^verbatim>\<open>s.substring(a, b)\<close>: both indices are clamped to the string, and swapped when
  the first is the larger.
\<close>

definition substring :: "string \<Rightarrow> int \<Rightarrow> int \<Rightarrow> string" where
  "substring s a b =
     (let n = int (length s);
          a' = max 0 (min a n);
          b' = max 0 (min b n);
          lo = min a' b';
          hi = max a' b'
      in take (nat (hi - lo)) (drop (nat lo) s))"

text \<open>\<^verbatim>\<open>xs.join(sep)\<close> on a list of strings and \<^verbatim>\<open>s.split(c)\<close> at a code unit.\<close>

fun join_str :: "string \<Rightarrow> string list \<Rightarrow> string" where
  "join_str sep [] = []"
| "join_str sep [x] = x"
| "join_str sep (x # y # ys) = x @ sep @ join_str sep (y # ys)"

fun split_str :: "char \<Rightarrow> string \<Rightarrow> string list" where
  "split_str c [] = [[]]"
| "split_str c (x # xs) =
     (if x = c then [] # split_str c xs
      else (case split_str c xs of [] \<Rightarrow> [[x]] | w # ws \<Rightarrow> (x # w) # ws))"

text \<open>A natural number in decimal, as a template literal prints \<^verbatim>\<open>response.status\<close>.\<close>

fun showNat :: "nat \<Rightarrow> string" where
  "showNat n = (if n < 10 then [''0123456789'' ! n] else showNat (n div 10) @ [''0123456789'' ! (n mod 10)])"

declare showNat.simps [simp del]

section \<open>Removing code fences\<close>

text \<open>
  \<^verbatim>\<open>jsonString.replace(/```(?:json)?\s*([\s\S]*?)\s*```/g, "$1")\<close>.
  The matcher follows the backtracking order of the expression. After the opening
  fence, \<^verbatim>\<open>(?:json)?\<close> first takes the word when it is there, \<^verbatim>\<open>\s*\<close> first
  takes all the white space and gives it back one unit at a time; the lazy group then
  grows one unit at a time until \<^verbatim>\<open>\s*```\<close> matches what follows it.
\<close>

definition fence :: string where
  "fence = ''```''"

text \<open>\<^verbatim>\<open>\s*```\<close> at the head of a text: what is left after it.\<close>

definition closeFence :: "string \<Rightarrow> string option" where
  "closeFence xs =
     (let r = dropWhile isSpace xs in if prefix fence r then Some (drop 3 r) else None)"

text \<open>\<^verbatim>\<open>([\s\S]*?)\s*```\<close>: the shortest captured text, and what is left after the match.\<close>

fun lazyBody :: "string \<Rightarrow> (string \<times> string) option" where
  "lazyBody [] = (case closeFence [] of Some rest \<Rightarrow> Some ([], rest) | None \<Rightarrow> None)"
| "lazyBody (c # cs) =
     (case closeFence (c # cs) of
        Some rest \<Rightarrow> Some ([], rest)
      | None \<Rightarrow> (case lazyBody cs of
                   None \<Rightarrow> None
                 | Some (cap, rest) \<Rightarrow> Some (c # cap, rest)))"

text \<open>The texts \<^verbatim>\<open>\s*\<close> can leave, from the greedy choice down to the empty one.\<close>

definition spaceChoices :: "string \<Rightarrow> string list" where
  "spaceChoices r = rev (map (\<lambda>k. drop k r) [0 ..< Suc (length (takeWhile isSpace r))])"

text \<open>The texts \<^verbatim>\<open>(?:json)?\s*\<close> can leave after the opening fence, in the order tried.\<close>

definition openings :: "string \<Rightarrow> string list" where
  "openings r =
     (if prefix ''json'' r then spaceChoices (drop 4 r) else []) @ spaceChoices r"

fun firstMatch :: "string list \<Rightarrow> (string \<times> string) option" where
  "firstMatch [] = None"
| "firstMatch (r # rs) = (case lazyBody r of Some m \<Rightarrow> Some m | None \<Rightarrow> firstMatch rs)"

text \<open>A match of the whole expression at the head of a text: group 1, and the text after the match.\<close>

definition matchFence :: "string \<Rightarrow> (string \<times> string) option" where
  "matchFence xs = (if prefix fence xs then firstMatch (openings (drop 3 xs)) else None)"

lemma closeFence_shorter: "closeFence xs = Some rest \<Longrightarrow> length rest < length xs"
proof -
  assume a: "closeFence xs = Some rest"
  let ?r = "dropWhile isSpace xs"
  from a have p: "prefix fence ?r" and r: "rest = drop 3 ?r"
    by (auto simp: closeFence_def Let_def split: if_splits)
  from p have "3 \<le> length ?r"
    using prefix_length_le [of fence ?r] by (simp add: fence_def)
  moreover have "length ?r \<le> length xs"
    by (rule length_dropWhile_le)
  ultimately show ?thesis using r by simp
qed

lemma lazyBody_shorter: "lazyBody xs = Some (cap, rest) \<Longrightarrow> length rest < length xs"
proof (induction xs arbitrary: cap rest)
  case Nil
  then show ?case
    by (auto split: option.splits dest: closeFence_shorter)
next
  case (Cons c cs)
  show ?case
  proof (cases "closeFence (c # cs)")
    case (Some r)
    with Cons.prems have "rest = r" by simp
    with Some show ?thesis by (auto dest: closeFence_shorter)
  next
    case None
    with Cons.prems obtain cap' where "lazyBody cs = Some (cap', rest)"
      by (auto split: option.splits)
    from Cons.IH [OF this] show ?thesis by simp
  qed
qed

lemma firstMatch_shorter:
  "firstMatch rs = Some (cap, rest) \<Longrightarrow> \<forall>r \<in> set rs. length r \<le> n \<Longrightarrow> length rest < n"
proof (induction rs)
  case Nil
  then show ?case by simp
next
  case (Cons r rs)
  show ?case
  proof (cases "lazyBody r")
    case None
    with Cons show ?thesis by simp
  next
    case (Some m)
    with Cons.prems(1) have "lazyBody r = Some (cap, rest)" by simp
    from lazyBody_shorter [OF this] Cons.prems(2) show ?thesis by simp
  qed
qed

lemma openings_length: "r' \<in> set (openings r) \<Longrightarrow> length r' \<le> length r"
  by (auto simp: openings_def spaceChoices_def split: if_splits)

lemma matchFence_shorter: "matchFence xs = Some (cap, rest) \<Longrightarrow> length rest < length xs"
proof -
  assume a: "matchFence xs = Some (cap, rest)"
  then have p: "prefix fence xs" and f: "firstMatch (openings (drop 3 xs)) = Some (cap, rest)"
    by (auto simp: matchFence_def split: if_splits)
  have "\<forall>r \<in> set (openings (drop 3 xs)). length r \<le> length (drop 3 xs)"
    by (auto dest: openings_length)
  from firstMatch_shorter [OF f this] show ?thesis by simp
qed

text \<open>
  The global replace: each match is replaced by its group 1 and the scan goes on after the
  match; a code unit where no match starts is kept.
\<close>

function stripFences :: "string \<Rightarrow> string" where
  "stripFences [] = []"
| "stripFences (c # cs) =
     (case matchFence (c # cs) of
        Some (cap, rest) \<Rightarrow> cap @ stripFences rest
      | None \<Rightarrow> c # stripFences cs)"
  by pat_completeness auto
termination
  by (relation "measure length") (auto dest: matchFence_shorter)

section \<open>The receipt scanner: \<^verbatim>\<open>scanReceipt\<close> of actions/transaction.js\<close>

subsection \<open>Inputs and the outside world\<close>

text \<open>
  \<^verbatim>\<open>formData.get('file')\<close> is null, a string or a File. Of a File the function reads
  \<^verbatim>\<open>size\<close>, \<^verbatim>\<open>type\<close> and \<^verbatim>\<open>arrayBuffer()\<close>, which resolves to the bytes or rejects;
  a thrown error is modelled by its message.
\<close>

record upload =
  fileSize :: nat
  fileType :: string
  arrayBuffer :: "string + nat list"

datatype entry = Missing | Text string | File upload

text \<open>
  An entry of the category table \<^verbatim>\<open>defaultCategories\<close> of the module data/categories:
  its id and its type. The table is a parameter of the model.
\<close>

record categoryDef =
  catId :: string
  catType :: string

text \<open>
  What \<^verbatim>\<open>fetch\<close> gives for one request: a rejection (network failure), or a response
  with its status, its status text and what \<^verbatim>\<open>response.text()\<close> and
  \<^verbatim>\<open>response.json()\<close> resolve to, each of which may reject.
\<close>

record response =
  status :: nat
  statusText :: string
  bodyText :: "string + string"
  bodyJson :: "string + json"

datatype reply = Rejected string | Resolved response

definition ok :: "response \<Rightarrow> bool" where
  "ok r = (200 \<le> status r \<and> status r \<le> 299)"

text \<open>A \<^verbatim>\<open>Date\<close>: a time value in milliseconds, or Invalid Date (time value NaN).\<close>

datatype date = Timestamp int | InvalidDate

text \<open>
  The world one call runs in. The built-ins of the platform are parameters:
  \<^verbatim>\<open>JSON.parse\<close> (\<open>Inl\<close> is the message of the SyntaxError it throws),
  \<^verbatim>\<open>Date.parse\<close> (\<open>None\<close> is NaN), the conversion of an array or object to a date
  (\<^verbatim>\<open>new Date(v)\<close> goes through ToPrimitive, which may throw), and the clock.
  \<open>fetch\<close> maps the URL of a request to its outcome.
\<close>

record env =
  GEMINI_API_KEY :: "string option"
  defaultCategories :: "categoryDef list"
  fetch :: "string \<Rightarrow> reply"
  JSON_parse :: "string \<Rightarrow> string + json"
  Date_parse :: "string \<Rightarrow> int option"
  Date_ofObject :: "json \<Rightarrow> string + date"
  now :: int

text \<open>The value the function returns.\<close>

record extraction =
  amount :: number
  date :: date
  description :: string
  merchantName :: string
  category :: string

subsection \<open>The allowed categories\<close>

text \<open>
  \<^verbatim>\<open>defaultCategories.filter(cat => cat.type === 'EXPENSE').map(cat => cat.id).join(',')\<close>,
  split at the commas again before the check.
\<close>

definition expenseIds :: "env \<Rightarrow> string list" where
  "expenseIds e = map catId (filter (\<lambda>c. catType c = ''EXPENSE'') (defaultCategories e))"

definition validExpenseCategories :: "env \<Rightarrow> string" where
  "validExpenseCategories e = join_str '','' (expenseIds e)"

definition validCategoryList :: "env \<Rightarrow> string list" where
  "validCategoryList e = split_str (CHR '','') (validExpenseCategories e)"

subsection \<open>The endpoint loop\<close>

definition endpointsToTry :: "string list" where
  "endpointsToTry =
     [''https://generativelanguage.googleapis.com/v1beta/models/gemini-1.5-flash-002:generateContent'',
      ''https://generativelanguage.googleapis.com/v1beta/models/gemini-1.5-pro-002:generateContent'',
      ''https://generativelanguage.googleapis.com/v1beta/models/gemini-2.5-flash-preview-05-20:generateContent'',
      ''https://generativelanguage.googleapis.com/v1beta/models/gemini-2.5-pro-preview-03-25:generateContent'']"

text \<open>The URL requested for an endpoint: \<^verbatim>\<open>`${endpoint}?key=${process.env.GEMINI_API_KEY}`\<close>.\<close>

definition requestUrl :: "env \<Rightarrow> string \<Rightarrow> string" where
  "requestUrl e endpoint =
     endpoint @ ''?key='' @ (case GEMINI_API_KEY e of None \<Rightarrow> ''undefined'' | Some k \<Rightarrow> k)"

text \<open>
  The variables of the loop, and the URLs requested so far. \<open>apiResponse\<close> starts as
  null and \<open>lastError\<close> as null (\<open>None\<close>); an error is kept by its message.
\<close>

record loop =
  apiResponse :: json
  lastError :: "string option"
  requests :: "string list"

definition loopStart :: loop where
  "loopStart = \<lparr>apiResponse = JNull, lastError = None, requests = []\<rparr>"

text \<open>
  What the body of the loop makes of one reply: \<open>Inr\<close> is the payload kept in
  \<open>apiResponse\<close>, \<open>Inl\<close> the message of the error kept in \<open>lastError\<close>.
  Everything thrown inside the body (by fetch, by \<^verbatim>\<open>response.json()\<close>, by
  \<^verbatim>\<open>response.text()\<close>) lands in the \<^verbatim>\<open>catch\<close> of the body.
\<close>

definition outcome :: "reply \<Rightarrow> string + json" where
  "outcome rep =
     (case rep of
        Rejected msg \<Rightarrow> Inl msg
      | Resolved r \<Rightarrow>
          if ok r then
            (case bodyJson r of Inr j \<Rightarrow> Inr j | Inl msg \<Rightarrow> Inl msg)
          else
            (case bodyText r of
               Inr errorText \<Rightarrow>
                 Inl (''API request failed: '' @ showNat (status r) @ '' '' @ statusText r @
                      '' - '' @ errorText)
             | Inl msg \<Rightarrow> Inl msg))"

text \<open>
  One pass of the loop for an endpoint: \<open>Inl\<close> is the state after \<^verbatim>\<open>break\<close>,
  \<open>Inr\<close> the state the loop goes on with.
\<close>

definition attempt :: "env \<Rightarrow> string \<Rightarrow> loop \<Rightarrow> loop + loop" where
  "attempt e endpoint st =
     (let st' = st\<lparr>requests := requests st @ [requestUrl e endpoint]\<rparr> in
      case outcome (fetch e (requestUrl e endpoint)) of
        Inr j \<Rightarrow> Inl (st'\<lparr>apiResponse := j\<rparr>)
      | Inl msg \<Rightarrow> Inr (st'\<lparr>lastError := Some msg\<rparr>))"

text \<open>What the loop makes of the reply of an endpoint.\<close>

definition answer :: "env \<Rightarrow> string \<Rightarrow> string + json" where
  "answer e endpoint = outcome (fetch e (requestUrl e endpoint))"

fun tryEndpoints :: "env \<Rightarrow> string list \<Rightarrow> loop \<Rightarrow> loop" where
  "tryEndpoints e [] st = st"
| "tryEndpoints e (endpoint # rest) st =
     (case attempt e endpoint st of
        Inl done \<Rightarrow> done
      | Inr next \<Rightarrow> tryEndpoints e rest next)"

subsection \<open>From the response to the candidate JSON text\<close>

text \<open>
  \<^verbatim>\<open>apiResponse.candidates?.[0]?.content?.parts?.[0]?.text || ""\<close>, then
  \<^verbatim>\<open>text.trim()\<close>. Reading \<^verbatim>\<open>candidates\<close> of null throws a TypeError, and so does
  calling \<^verbatim>\<open>trim\<close> on a truthy value that is not a string; the messages are those of
  the V8 engine.
\<close>

definition responseText :: "json \<Rightarrow> json" where
  "responseText api =
     (case optChain (getProp ''text'')
             (optChain elem0
               (optChain (getProp ''parts'')
                 (optChain (getProp ''content'')
                   (optChain elem0 (getProp ''candidates'' api))))) of
        None \<Rightarrow> JStr []
      | Some v \<Rightarrow> if truthy v then v else JStr [])"

definition trimmedText :: "json \<Rightarrow> string + string" where
  "trimmedText api =
     (if api = JNull then Inl ''Cannot read properties of null (reading 'candidates')''
      else (case responseText api of
              JStr s \<Rightarrow> Inr (trim s)
            | v \<Rightarrow> Inl ''text.trim is not a function''))"

text \<open>
  The fences are removed, the text is trimmed again, and the span from the first opening
  brace to the last closing brace is cut out when there is one.
\<close>

definition candidateJson :: "string \<Rightarrow> string" where
  "candidateJson trimmed =
     (let jsonString = trim (stripFences trimmed);
          jsonStart = indexOf jsonString (CHR ''{'');
          jsonEnd = lastIndexOf jsonString (CHR ''}'')
      in if jsonStart \<noteq> -1 \<and> jsonEnd \<noteq> -1 \<and> jsonEnd > jsonStart
         then substring jsonString jsonStart (jsonEnd + 1)
         else jsonString)"

subsection \<open>Validation of the decoded value\<close>

definition sentinel :: string where
  "sentinel = ''other-expense''"

text \<open>\<^verbatim>\<open>typeof data.amount === 'number' ? Math.abs(data.amount) : 0\<close>\<close>

definition amountOf :: "json \<Rightarrow> number" where
  "amountOf d = (case getProp ''amount'' d of Some (JNum n) \<Rightarrow> Math_abs n | other \<Rightarrow> Finite 0)"

text \<open>
  \<^verbatim>\<open>new Date(v)\<close>: a string goes through \<^verbatim>\<open>Date.parse\<close>; a number is clipped
  (TimeClip: beyond 8.64e15 ms the date is invalid, otherwise the fraction is dropped);
  true, false and null count as 1, 0 and 0.
\<close>

definition timeClip :: "number \<Rightarrow> date" where
  "timeClip n =
     (case n of
        Finite r \<Rightarrow>
          if \<bar>r\<bar> \<le> 8640000000000000 then Timestamp (if 0 \<le> r then \<lfloor>r\<rfloor> else \<lceil>r\<rceil>)
          else InvalidDate
      | other \<Rightarrow> InvalidDate)"

fun newDate :: "env \<Rightarrow> json \<Rightarrow> string + date" where
  "newDate e (JStr s) = Inr (case Date_parse e s of None \<Rightarrow> InvalidDate | Some t \<Rightarrow> Timestamp t)"
| "newDate e (JNum n) = Inr (timeClip n)"
| "newDate e (JBool b) = Inr (Timestamp (if b then 1 else 0))"
| "newDate e JNull = Inr (Timestamp 0)"
| "newDate e v = Date_ofObject e v"

text \<open>\<^verbatim>\<open>data.date ? new Date(data.date) : new Date()\<close>\<close>

definition dateOf :: "env \<Rightarrow> json \<Rightarrow> string + date" where
  "dateOf e d =
     (case getProp ''date'' d of
        None \<Rightarrow> Inr (Timestamp (now e))
      | Some v \<Rightarrow> if truthy v then newDate e v else Inr (Timestamp (now e)))"

text \<open>
  \<^verbatim>\<open>typeof x === 'string' && x.trim() ? x.trim() : fallback\<close>, for the description
  and the merchant name.
\<close>

definition textOr :: "string \<Rightarrow> json option \<Rightarrow> string" where
  "textOr fallback v =
     (case v of Some (JStr s) \<Rightarrow> if trim s \<noteq> [] then trim s else fallback | other \<Rightarrow> fallback)"

text \<open>
  \<^verbatim>\<open>data.category && validCategoryList.includes(data.category)\<close>: the list holds
  strings, so only a non-empty string can be kept.
\<close>

definition categoryOf :: "env \<Rightarrow> json \<Rightarrow> string" where
  "categoryOf e d =
     (case getProp ''category'' d of
        Some (JStr s) \<Rightarrow> if s \<noteq> [] \<and> s \<in> set (validCategoryList e) then s else sentinel
      | other \<Rightarrow> sentinel)"

text \<open>
  The body of the inner \<^verbatim>\<open>try\<close> after the decoding: reading a property of null
  throws, and so may the date constructor.
\<close>

definition validate :: "env \<Rightarrow> json \<Rightarrow> string + extraction" where
  "validate e d =
     (if d = JNull then Inl ''Cannot read properties of null (reading 'amount')''
      else (case dateOf e d of
              Inl msg \<Rightarrow> Inl msg
            | Inr dt \<Rightarrow>
                Inr \<lparr>amount = amountOf d,
                     date = dt,
                     description = textOr ''Receipt scan'' (getProp ''description'' d),
                     merchantName = textOr ''Unknown merchant'' (getProp ''merchantName'' d),
                     category = categoryOf e d\<rparr>))"

text \<open>The value returned by the inner \<^verbatim>\<open>catch\<close>.\<close>

definition parseFailure :: "env \<Rightarrow> extraction" where
  "parseFailure e =
     \<lparr>amount = Finite 0,
      date = Timestamp (now e),
      description = ''Receipt scan - AI response format not recognized. Please manually enter details.'',
      merchantName = ''Unknown merchant'',
      category = ''other-expense''\<rparr>"

text \<open>The inner \<^verbatim>\<open>try\<close>/\<^verbatim>\<open>catch\<close>: decode, validate, and fall back on anything thrown.\<close>

definition parseAndValidate :: "env \<Rightarrow> string \<Rightarrow> extraction" where
  "parseAndValidate e jsonString =
     (case JSON_parse e jsonString of
        Inl msg \<Rightarrow> parseFailure e
      | Inr d \<Rightarrow> (case validate e d of Inl msg \<Rightarrow> parseFailure e | Inr r \<Rightarrow> r))"

subsection \<open>The whole function\<close>

text \<open>The value returned by the outer \<^verbatim>\<open>catch\<close> for an error with the given message.\<close>

definition errorResult :: "env \<Rightarrow> string \<Rightarrow> extraction" where
  "errorResult e msg =
     \<lparr>amount = Finite 0,
      date = Timestamp (now e),
      description = ''Error: '' @ msg @ ''. Please manually enter receipt details.'',
      merchantName = ''Error occurred'',
      category = ''other-expense''\<rparr>"

text \<open>
  The three checks at the head of the function, in the order of the source. \<open>Inl\<close> is
  the message of the error thrown. A string entry has no \<^verbatim>\<open>size\<close>, and
  \<^verbatim>\<open>undefined > n\<close> is false.
\<close>

definition preChecks :: "env \<Rightarrow> entry \<Rightarrow> string + entry" where
  "preChecks e file =
     (if file = Missing \<or> file = Text [] then Inl ''No file provided''
      else if (case file of File f \<Rightarrow> fileSize f > 5 * 1024 * 1024 | other \<Rightarrow> False)
        then Inl ''File size should be less than 5MB''
      else if GEMINI_API_KEY e = None \<or> GEMINI_API_KEY e = Some []
        then Inl ''GEMINI_API_KEY is not configured in environment variables''
      else Inr file)"

text \<open>
  What follows the loop: \<^verbatim>\<open>if (!apiResponse && lastError) throw lastError\<close>, then the
  text of the response, the candidate and its validation.
\<close>

definition afterLoop :: "env \<Rightarrow> loop \<Rightarrow> string + extraction" where
  "afterLoop e st =
     (case (if truthy (apiResponse st) then None else lastError st) of
        Some msg \<Rightarrow> Inl msg
      | None \<Rightarrow>
          (case trimmedText (apiResponse st) of
             Inl msg \<Rightarrow> Inl msg
           | Inr trimmed \<Rightarrow> Inr (parseAndValidate e (candidateJson trimmed))))"

text \<open>
  The body of the outer \<^verbatim>\<open>try\<close>: the URLs requested, and the value returned
  (\<open>Inr\<close>) or the message of the error thrown (\<open>Inl\<close>).
\<close>

definition scanBody :: "env \<Rightarrow> entry \<Rightarrow> string list \<times> (string + extraction)" where
  "scanBody e file =
     (case preChecks e file of
        Inl msg \<Rightarrow> ([], Inl msg)
      | Inr (File f) \<Rightarrow>
          (case arrayBuffer f of
             Inl msg \<Rightarrow> ([], Inl msg)
           | Inr bytes \<Rightarrow>
               (let st = tryEndpoints e endpointsToTry loopStart
                in (requests st, afterLoop e st)))
      | Inr other \<Rightarrow> ([], Inl ''file.arrayBuffer is not a function''))"

text \<open>
  \<^verbatim>\<open>scanReceipt\<close>: the outer \<^verbatim>\<open>catch\<close> turns whatever the body throws into a
  returned value. The result is the list of URLs requested and the outcome for the
  caller: \<open>Inr\<close> a returned value, \<open>Inl\<close> an error that escapes.
\<close>

definition scanReceipt :: "env \<Rightarrow> entry \<Rightarrow> string list \<times> (string + extraction)" where
  "scanReceipt e file =
     (case scanBody e file of
        (reqs, Inl msg) \<Rightarrow> (reqs, Inr (errorResult e msg))
      | (reqs, Inr r) \<Rightarrow> (reqs, Inr r))"

text \<open>
  The text the decoder works on: the trimmed text of the model's response, when the call
  gets as far as reading it (the checks pass, the file is read, the loop leaves a
  response that is not thrown away, and the text is a string).
\<close>

definition modelText :: "env \<Rightarrow> entry \<Rightarrow> string option" where
  "modelText e file =
     (case preChecks e file of
        Inr (File f) \<Rightarrow>
          (case arrayBuffer f of
             Inr bytes \<Rightarrow>
               (let st = tryEndpoints e endpointsToTry loopStart in
                if \<not> truthy (apiResponse st) \<and> lastError st \<noteq> None then None
                else (case trimmedText (apiResponse st) of Inr t \<Rightarrow> Some t | Inl msg \<Rightarrow> None))
           | Inl msg \<Rightarrow> None)
      | other \<Rightarrow> None)"

section \<open>The scanner widget: \<^verbatim>\<open>ReceiptScanner\<close>\<close>

text \<open>
  The effect that runs when \<^verbatim>\<open>scannedData\<close> arrives picks one of four toasts; in
  every branch the data is handed to \<^verbatim>\<open>onScanComplete\<close>. An empty description is
  falsy.
\<close>

datatype toast = ErrorToast | SuccessToast | FormatInfoToast | FallbackInfoToast

definition hasErrorMarker :: "string \<Rightarrow> bool" where
  "hasErrorMarker d = (d \<noteq> [] \<and> (includes_str d ''Error:'' \<or> includes_str d ''Failed to connect''))"

definition nonGeneric :: "string \<Rightarrow> bool" where
  "nonGeneric d =
     (d \<noteq> [] \<and> \<not> includes_str d ''Receipt scan'' \<and> \<not> includes_str d ''format not recognized'')"

definition toastFor :: "extraction \<Rightarrow> toast" where
  "toastFor scannedData =
     (if hasErrorMarker (description scannedData) then ErrorToast
      else if positive (amount scannedData) \<or> nonGeneric (description scannedData) then SuccessToast
      else if description scannedData \<noteq> [] \<and>
              includes_str (description scannedData) ''format not recognized''
        then FormatInfoToast
      else FallbackInfoToast)"

text \<open>
  The classification in the order the specification words it: error markers, then the
  format marker, then the success test, then the fallback.
\<close>

definition toastBySpec :: "extraction \<Rightarrow> toast" where
  "toastBySpec scannedData =
     (if includes_str (description scannedData) ''Error:'' \<or>
         includes_str (description scannedData) ''Failed to connect'' then ErrorToast
      else if includes_str (description scannedData) ''format not recognized'' then FormatInfoToast
      else if positive (amount scannedData) \<or> nonGeneric (description scannedData) then SuccessToast
      else FallbackInfoToast)"

section \<open>The dashboard actions: actions/dashboard.js\<close>

subsection \<open>Rows and their serialisation\<close>

text \<open>
  A row as the object-relational mapper returns it: its columns by name. A decimal
  column holds a Decimal object, which \<^verbatim>\<open>toNumber()\<close> turns into a number.
\<close>

datatype cell = Decimal real | Number real | Str string | Flag bool | Null

type_synonym row = "(string \<times> cell) list"

fun truthyCell :: "cell \<Rightarrow> bool" where
  "truthyCell (Decimal d) = True"
| "truthyCell (Number n) = (n \<noteq> 0)"
| "truthyCell (Str s) = (s \<noteq> [])"
| "truthyCell (Flag b) = b"
| "truthyCell Null = False"

text \<open>\<^verbatim>\<open>serialized.k = v\<close> on the copy.\<close>

fun assign :: "string \<Rightarrow> cell \<Rightarrow> row \<Rightarrow> row" where
  "assign k v [] = [(k, v)]"
| "assign k v ((k', v') # kvs) = (if k' = k then (k, v) # kvs else (k', v') # assign k v kvs)"

text \<open>
  \<^verbatim>\<open>if (obj.k) { serialized.k = obj.k.toNumber(); }\<close>: calling \<^verbatim>\<open>toNumber\<close> on a
  truthy value that is not a Decimal throws a TypeError.
\<close>

definition convertField :: "string \<Rightarrow> row \<Rightarrow> row \<Rightarrow> string + row" where
  "convertField k obj serialized =
     (case map_of obj k of
        None \<Rightarrow> Inr serialized
      | Some c \<Rightarrow>
          if truthyCell c then
            (case c of
               Decimal d \<Rightarrow> Inr (assign k (Number d) serialized)
             | other \<Rightarrow> Inl (''obj.'' @ k @ ''.toNumber is not a function''))
          else Inr serialized)"

definition serializeTransaction :: "row \<Rightarrow> string + row" where
  "serializeTransaction obj =
     (case convertField ''balance'' obj obj of
        Inl msg \<Rightarrow> Inl msg
      | Inr serialized \<Rightarrow> convertField ''amount'' obj serialized)"

text \<open>\<^verbatim>\<open>rows.map(serializeTransaction)\<close>: the first error thrown ends the map.\<close>

fun mapSerialize :: "row list \<Rightarrow> string + row list" where
  "mapSerialize [] = Inr []"
| "mapSerialize (r # rs) =
     (case serializeTransaction r of
        Inl msg \<Rightarrow> Inl msg
      | Inr x \<Rightarrow> (case mapSerialize rs of Inl msg \<Rightarrow> Inl msg | Inr xs \<Rightarrow> Inr (x # xs)))"

subsection \<open>\<^verbatim>\<open>getUserAccounts\<close> and \<^verbatim>\<open>getDashboardData\<close>\<close>

text \<open>
  The data store as the two readers see it. Each query resolves or throws (\<open>Inl\<close>,
  the message): the user by the id the authentication gives (null when there is none,
  otherwise the row id of the user), the account rows of a user, the transaction rows
  of a user.
\<close>

record store =
  findUser :: "string \<Rightarrow> string + string option"
  findAccounts :: "string \<Rightarrow> string + row list"
  findTransactions :: "string \<Rightarrow> string + row list"

text \<open>
  \<open>userId\<close> is what \<^verbatim>\<open>auth()\<close> resolved to: null (\<open>None\<close>) or a string. The
  check on it stands before the \<^verbatim>\<open>try\<close>, so its error reaches the caller.
\<close>

definition getUserAccounts :: "store \<Rightarrow> string option \<Rightarrow> string + row list" where
  "getUserAccounts db userId =
     (if userId = None \<or> userId = Some [] then Inl ''Unauthorized''
      else
        (case findUser db (case userId of Some clerkUserId \<Rightarrow> clerkUserId | None \<Rightarrow> []) of
           Inl msg \<Rightarrow> Inr []
         | Inr None \<Rightarrow> Inr []
         | Inr (Some user) \<Rightarrow>
             (case findAccounts db user of
                Inl msg \<Rightarrow> Inr []
              | Inr accounts \<Rightarrow>
                  (case mapSerialize accounts of
                     Inl msg \<Rightarrow> Inr []
                   | Inr serializedAccounts \<Rightarrow> Inr serializedAccounts))))"

definition getDashboardData :: "store \<Rightarrow> string option \<Rightarrow> string + row list" where
  "getDashboardData db userId =
     (if userId = None \<or> userId = Some [] then Inl ''Unauthorized''
      else
        (case findUser db (case userId of Some clerkUserId \<Rightarrow> clerkUserId | None \<Rightarrow> []) of
           Inl msg \<Rightarrow> Inr []
         | Inr None \<Rightarrow> Inr []
         | Inr (Some user) \<Rightarrow>
             (case findTransactions db user of
                Inl msg \<Rightarrow> Inr []
              | Inr transactions \<Rightarrow>
                  (case mapSerialize transactions of
                     Inl msg \<Rightarrow> Inr []
                   | Inr rows \<Rightarrow> Inr rows))))"

subsection \<open>\<^verbatim>\<open>createAccount\<close>\<close>

text \<open>
  The account table is a list of accounts. The input is the form's object; its
  \<^verbatim>\<open>isDefault\<close> is a boolean. Each call to the store may throw; the conditions of a call
  say which do (\<open>Some\<close> the message), what the authentication, the rate limiter and
  the user lookup give, what \<^verbatim>\<open>parseFloat\<close> makes of the balance (\<open>None\<close> is NaN) and
  the id the store gives the new row.
\<close>

record account =
  accountId :: string
  accountName :: string
  accountType :: string
  balance :: real
  isDefault :: bool
  userId :: string

record accountInput =
  data_name :: string
  data_type :: string
  data_balance :: string
  data_isDefault :: bool

datatype decision = Allowed | RateLimited | Denied

record conditions =
  authUserId :: "string option"
  rateLimit :: decision
  userRecord :: "string + string option"
  parseFloat :: "string \<Rightarrow> real option"
  findManyError :: "string option"
  updateManyError :: "string option"
  createError :: "string option"
  generatedId :: string

text \<open>
  \<^verbatim>\<open>db.account.updateMany({where: {userId, isDefault: true}, data: {isDefault: false}})\<close>
\<close>

definition unsetDefaults :: "string \<Rightarrow> account list \<Rightarrow> account list" where
  "unsetDefaults u accounts =
     map (\<lambda>a. if userId a = u \<and> isDefault a then a\<lparr>isDefault := False\<rparr> else a) accounts"

text \<open>
  The part of the function after the user is found and the balance is parsed: the
  accounts of the user are read (an error leaves the empty list), the default flag is
  decided, the other defaults are unset when the new account is to be the default (an
  error is logged and the function goes on), and the account is created (an error is
  thrown on as a new one). The result is the outcome and the table after the call.
\<close>

definition storeAccount ::
  "conditions \<Rightarrow> account list \<Rightarrow> string \<Rightarrow> real \<Rightarrow> accountInput \<Rightarrow> (string + account) \<times> account list" where
  "storeAccount c table user balanceFloat d =
     (let existingAccounts =
            (case findManyError c of
               Some msg \<Rightarrow> []
             | None \<Rightarrow> filter (\<lambda>a. userId a = user) table);
          shouldBeDefault = (if length existingAccounts = 0 then True else data_isDefault d);
          table' =
            (if shouldBeDefault then
               (case updateManyError c of
                  Some msg \<Rightarrow> table
                | None \<Rightarrow> unsetDefaults user table)
             else table)
      in case createError c of
           Some msg \<Rightarrow> (Inl ''Failed to create account. Database connection issue.'', table')
         | None \<Rightarrow>
             (let account = \<lparr>accountId = generatedId c,
                             accountName = data_name d,
                             accountType = data_type d,
                             balance = balanceFloat,
                             isDefault = shouldBeDefault,
                             userId = user\<rparr>
              in (Inr account, table' @ [account])))"

definition createAccount ::
  "conditions \<Rightarrow> account list \<Rightarrow> accountInput \<Rightarrow> (string + account) \<times> account list" where
  "createAccount c table d =
     (if authUserId c = None \<or> authUserId c = Some [] then (Inl ''Unauthorized'', table)
      else if rateLimit c = RateLimited then (Inl ''Too many requests. Please try again later.'', table)
      else if rateLimit c = Denied then (Inl ''Request blocked'', table)
      else
        (case userRecord c of
           Inl msg \<Rightarrow> (Inl msg, table)
         | Inr None \<Rightarrow> (Inl ''User not found'', table)
         | Inr (Some user) \<Rightarrow>
             (case parseFloat c (data_balance d) of
                None \<Rightarrow> (Inl ''Invalid balance amount'', table)
              | Some balanceFloat \<Rightarrow> storeAccount c table user balanceFloat d)))"

text \<open>The defaults of a user, and the invariant of the table for a user.\<close>

definition defaultsOf :: "string \<Rightarrow> account list \<Rightarrow> account list" where
  "defaultsOf u table = filter (\<lambda>a. userId a = u \<and> isDefault a) table"

definition accountsOf :: "string \<Rightarrow> account list \<Rightarrow> account list" where
  "accountsOf u table = filter (\<lambda>a. userId a = u) table"

definition oneDefault :: "string \<Rightarrow> account list \<Rightarrow> bool" where
  "oneDefault u table =
     (length (defaultsOf u table) \<le> 1 \<and> (accountsOf u table \<noteq> [] \<longrightarrow> defaultsOf u table \<noteq> []))"

section \<open>Sample inputs\<close>

text \<open>
  Concrete inputs on which the theorems below are instantiated. The response of the API
  carries the text of the model at \<^verbatim>\<open>candidates[0].content.parts[0].text\<close>.
\<close>

definition geminiPayload :: "string \<Rightarrow> json" where
  "geminiPayload t =
     JObj [(''candidates'',
            JArr [JObj [(''content'', JObj [(''parts'', JArr [JObj [(''text'', JStr t)]])])]])]"

definition sampleCategories :: "categoryDef list" where
  "sampleCategories =
     [\<lparr>catId = ''salary'', catType = ''INCOME''\<rparr>,
      \<lparr>catId = ''groceries'', catType = ''EXPENSE''\<rparr>,
      \<lparr>catId = ''shopping'', catType = ''EXPENSE''\<rparr>,
      \<lparr>catId = ''other-expense'', catType = ''EXPENSE''\<rparr>]"

definition receiptJson :: string where
  "receiptJson = ''{\"amount\":-29.99,\"date\":\"2023-12-25T00:00:00.000Z\",\"description\":\" Grocery shopping \",\"merchantName\":\"Store Name\",\"category\":\"groceries\"}''"

definition receiptFields :: "(string \<times> json) list" where
  "receiptFields =
     [(''amount'', JNum (Finite (- 2999 / 100))),
      (''date'', JStr ''2023-12-25T00:00:00.000Z''),
      (''description'', JStr '' Grocery shopping ''),
      (''merchantName'', JStr ''Store Name''),
      (''category'', JStr ''groceries'')]"

text \<open>A receipt whose category is not one of the table.\<close>

definition lotteryJson :: string where
  "lotteryJson = ''{\"amount\":-12,\"date\":\"2023-12-25T00:00:00.000Z\",\"description\":\" Lottery ticket \",\"merchantName\":\" Corner kiosk\",\"category\":\"lottery\"}''"

definition lotteryFields :: "(string \<times> json) list" where
  "lotteryFields =
     [(''amount'', JNum (Finite (- 12))),
      (''date'', JStr ''2023-12-25T00:00:00.000Z''),
      (''description'', JStr '' Lottery ticket ''),
      (''merchantName'', JStr '' Corner kiosk''),
      (''category'', JStr ''lottery'')]"

text \<open>
  A decoder that agrees with \<^verbatim>\<open>JSON.parse\<close> on the texts used below and rejects
  every other text, and a date parser that knows one ISO date.
\<close>

definition sampleDecoder :: "string \<Rightarrow> string + json" where
  "sampleDecoder s =
     (case map_of
        [(receiptJson, JObj receiptFields),
         (lotteryJson, JObj lotteryFields),
         (''{\"date\":\"unknown\"}'', JObj [(''date'', JStr ''unknown'')]),
         (''{\"description\":\"a```b\"}'', JObj [(''description'', JStr ''a```b'')]),
         (''{\"description\":\"ab\"}'', JObj [(''description'', JStr ''ab'')]),
         (''{\"amount\":12.5,\"description\":\"Card format not recognized\"}'',
            JObj [(''amount'', JNum (Finite (25 / 2))), (''description'', JStr ''Card format not recognized'')]),
         (''null'', JNull),
         (''5'', JNum (Finite 5))] s of
        Some v \<Rightarrow> Inr v
      | None \<Rightarrow> Inl ''Unexpected token'')"

definition sampleDateParse :: "string \<Rightarrow> int option" where
  "sampleDateParse s = (if s = ''2023-12-25T00:00:00.000Z'' then Some 1703462400000 else None)"

definition okReply :: "json \<Rightarrow> reply" where
  "okReply j = Resolved \<lparr>status = 200, statusText = ''OK'', bodyText = Inr [], bodyJson = Inr j\<rparr>"

definition notFoundReply :: reply where
  "notFoundReply =
     Resolved \<lparr>status = 404, statusText = ''Not Found'', bodyText = Inr ''model not found'',
               bodyJson = Inl ''Unexpected token''\<rparr>"

definition emptyOkReply :: reply where
  "emptyOkReply =
     Resolved \<lparr>status = 200, statusText = ''OK'', bodyText = Inr [],
               bodyJson = Inl ''Unexpected end of JSON input''\<rparr>"

definition world :: "(string \<Rightarrow> reply) \<Rightarrow> env" where
  "world f =
     \<lparr>GEMINI_API_KEY = Some ''k'',
      defaultCategories = sampleCategories,
      fetch = f,
      JSON_parse = sampleDecoder,
      Date_parse = sampleDateParse,
      Date_ofObject = (\<lambda>v. Inr InvalidDate),
      now = 1700000000000\<rparr>"

text \<open>The world in which every endpoint answers with the given text of the model.\<close>

definition answering :: "string \<Rightarrow> env" where
  "answering t = world (\<lambda>url. okReply (geminiPayload t))"

text \<open>The world in which the first endpoint gives one reply and the others another.\<close>

definition firstThenRest :: "reply \<Rightarrow> reply \<Rightarrow> env" where
  "firstThenRest r1 r2 =
     world (\<lambda>url. if url = requestUrl (world (\<lambda>u. r1)) (hd endpointsToTry) then r1 else r2)"

definition photo :: entry where
  "photo = File \<lparr>fileSize = 1000, fileType = ''image/png'', arrayBuffer = Inr [137, 80, 78, 71]\<rparr>"

definition largePhoto :: entry where
  "largePhoto = File \<lparr>fileSize = 6000000, fileType = ''image/png'', arrayBuffer = Inr [137, 80, 78, 71]\<rparr>"

text \<open>
  A store that cannot be reached and a store in which the user has no rows; an account
  table with one default account, an input for a second account, and the conditions of
  a call in which nothing fails.
\<close>

definition unreachableStore :: store where
  "unreachableStore =
     \<lparr>findUser = (\<lambda>clerkUserId. Inl ''Can't reach database server''),
      findAccounts = (\<lambda>user. Inl ''Can't reach database server''),
      findTransactions = (\<lambda>user. Inl ''Can't reach database server'')\<rparr>"

definition emptyStore :: store where
  "emptyStore =
     \<lparr>findUser = (\<lambda>clerkUserId. Inr (Some ''user_1'')),
      findAccounts = (\<lambda>user. Inr []),
      findTransactions = (\<lambda>user. Inr [])\<rparr>"

definition savings :: account where
  "savings = \<lparr>accountId = ''acc_1'', accountName = ''Savings'', accountType = ''SAVINGS'',
              balance = 100, isDefault = True, userId = ''user_1''\<rparr>"

definition checkingInput :: accountInput where
  "checkingInput = \<lparr>data_name = ''Checking'', data_type = ''CURRENT'', data_balance = ''250.50'',
                    data_isDefault = True\<rparr>"

definition healthy :: conditions where
  "healthy =
     \<lparr>authUserId = Some ''clerk_1'', rateLimit = Allowed, userRecord = Inr (Some ''user_1''),
      parseFloat = (\<lambda>s. if s = ''250.50'' then Some (501 / 2) else None),
      findManyError = None, updateManyError = None, createError = None,
      generatedId = ''acc_2''\<rparr>"

section \<open>Properties of the receipt scanner\<close>

subsection \<open>Auxiliary facts\<close>






lemma scanReceipt_cases:
  "(\<exists>msg. snd (scanReceipt e file) = Inr (errorResult e msg)) \<or>
   (\<exists>s. snd (scanReceipt e file) = Inr (parseAndValidate e s))"
  by (auto simp: scanReceipt_def scanBody_def afterLoop_def Let_def split: sum.splits entry.splits option.splits prod.splits)







lemma scanReceipt_modelText:
  "modelText e file = Some t \<Longrightarrow> snd (scanReceipt e file) = Inr (parseAndValidate e (candidateJson t))"
  by (auto simp: modelText_def scanReceipt_def scanBody_def afterLoop_def Let_def
           split: sum.splits entry.splits option.splits if_splits)

lemma includes_str_iff: "includes_str s t \<longleftrightarrow> (\<exists>p q. s = p @ t @ q)"
proof (induction s)
  case Nil
  then show ?case by simp
next
  case (Cons c cs)
  show ?case
  proof
    assume "includes_str (c # cs) t"
    then consider "prefix t (c # cs)" | "includes_str cs t" by auto
    then show "\<exists>p q. c # cs = p @ t @ q"
    proof cases
      case 1
      then obtain q where "c # cs = t @ q" by (auto simp: prefix_def)
      then have "c # cs = [] @ t @ q" by simp
      then show ?thesis by blast
    next
      case 2
      with Cons.IH obtain p q where "cs = p @ t @ q" by blast
      then have "c # cs = (c # p) @ t @ q" by simp
      then show ?thesis by blast
    qed
  next
    assume "\<exists>p q. c # cs = p @ t @ q"
    then obtain p q where pq: "c # cs = p @ t @ q" by blast
    show "includes_str (c # cs) t"
    proof (cases p)
      case Nil
      with pq have "prefix t (c # cs)" by (simp add: prefix_def)
      then show ?thesis by simp
    next
      case (Cons a p')
      with pq have "cs = p' @ t @ q" by simp
      with Cons.IH have "includes_str cs t" by blast
      then show ?thesis by simp
    qed
  qed
qed

lemma trim_spaces:
  assumes a: "\<forall>c \<in> set a. isSpace c" and b: "\<forall>c \<in> set b. isSpace c"
    and x: "x \<noteq> []" "\<not> isSpace (hd x)" "\<not> isSpace (last x)"
  shows "trim (a @ x @ b) = x"
proof -
  have 1: "dropWhile isSpace (a @ x @ b) = x @ b"
  proof -
    have "dropWhile isSpace (a @ x @ b) = dropWhile isSpace (x @ b)"
      using a by (simp add: dropWhile_append)
    also have "\<dots> = x @ b"
      using x(1,2) by (cases x) simp_all
    finally show ?thesis .
  qed
  have 2: "dropWhile isSpace (rev b @ rev x) = rev x"
  proof -
    have "dropWhile isSpace (rev b @ rev x) = dropWhile isSpace (rev x)"
      using b by (simp add: dropWhile_append)
    also have "\<dots> = rev x"
      using x(1,3) by (cases x rule: rev_cases) simp_all
    finally show ?thesis .
  qed
  show ?thesis by (simp add: trim_def 1 2)
qed

lemma closeFence_lazyBody: "closeFence xs = Some rest \<Longrightarrow> lazyBody xs = Some ([], rest)"
  by (cases xs) simp_all

lemma lazyBody_append:
  assumes "\<forall>a s. p = a @ s \<longrightarrow> s \<noteq> [] \<longrightarrow> closeFence (s @ r) = None"
    and "closeFence r = Some rest"
  shows "lazyBody (p @ r) = Some (p, rest)"
  using assms(1)
proof (induction p)
  case Nil
  show ?case using assms(2) by (simp add: closeFence_lazyBody)
next
  case (Cons c p)
  have "closeFence ((c # p) @ r) = None"
    using Cons.prems by blast
  moreover have "lazyBody (p @ r) = Some (p, rest)"
  proof (rule Cons.IH, intro allI impI)
    fix a s assume "p = a @ s" and "s \<noteq> []"
    then have "c # p = (c # a) @ s" by simp
    with Cons.prems \<open>s \<noteq> []\<close> show "closeFence (s @ r) = None" by blast
  qed
  ultimately show ?case by simp
qed

lemma closeFence_spaces_fence:
  assumes "\<forall>c \<in> set ws. isSpace c"
  shows "closeFence (ws @ fence @ rest) = Some rest"
proof -
  have "dropWhile isSpace (ws @ fence @ rest) = fence @ rest"
    using assms by (simp add: dropWhile_append fence_def isSpace_def)
  then show ?thesis by (simp add: closeFence_def fence_def)
qed

lemma closeFence_inside:
  assumes nf: "\<not> includes_str payload fence" and l: "last payload = CHR ''}''"
    and s: "payload = a @ s" "s \<noteq> []"
  shows "closeFence (s @ r) = None"
proof -
  let ?s' = "dropWhile isSpace s"
  have ls: "last s = CHR ''}''" using s l by simp
  have "last s \<in> set s" using s(2) by simp
  moreover have "\<not> isSpace (last s)" using ls by (simp add: isSpace_def)
  ultimately have "last s \<in> set s" "\<not> isSpace (last s)" by blast+
  then have d: "dropWhile isSpace (s @ r) = ?s' @ r"
    by (meson dropWhile_append1)
  have ne: "?s' \<noteq> []"
    using \<open>last s \<in> set s\<close> \<open>\<not> isSpace (last s)\<close> by auto
  have ls': "last ?s' = CHR ''}''"
  proof -
    have "s = takeWhile isSpace s @ ?s'" by simp
    then have "last s = last ?s'" using ne by (metis last_appendR)
    with ls show ?thesis by simp
  qed
  have "\<not> prefix fence (?s' @ r)"
  proof
    assume "prefix fence (?s' @ r)"
    then consider "prefix fence ?s'" | us where "fence = ?s' @ us"
      by (auto simp: prefix_append)
    then show False
    proof cases
      case 1
      then obtain q where "?s' = fence @ q" by (auto simp: prefix_def)
      moreover have "s = takeWhile isSpace s @ ?s'" by simp
      ultimately have "payload = (a @ takeWhile isSpace s) @ fence @ q"
        using s(1) by (metis append.assoc)
      with nf show False unfolding includes_str_iff by blast
    next
      case 2
      then have "set ?s' \<subseteq> set fence" by (metis set_append Un_upper1)
      moreover have "last ?s' \<in> set ?s'" using ne by simp
      ultimately show False using ls' by (auto simp: fence_def)
    qed
  qed
  then show ?thesis by (simp add: closeFence_def d)
qed

lemma spaceChoices_head:
  assumes "\<forall>c \<in> set ws. isSpace c" and "r \<noteq> []" and "\<not> isSpace (hd r)"
  shows "\<exists>more. spaceChoices (ws @ r) = r # more"
proof -
  have "takeWhile isSpace (ws @ r) = ws"
    using assms by (cases r) (simp_all add: takeWhile_append)
  then show ?thesis by (simp add: spaceChoices_def)
qed

lemma matchFence_fenced:
  assumes ws: "\<forall>c \<in> set ws1. isSpace c" "\<forall>c \<in> set ws2. isSpace c"
    and tag: "tag = [] \<or> tag = ''json''"
    and p: "hd payload = CHR ''{''" "last payload = CHR ''}''" "payload \<noteq> []"
      "\<not> includes_str payload fence"
  shows "matchFence (fence @ tag @ ws1 @ payload @ ws2 @ fence) = Some (payload, [])"
proof -
  let ?P = "payload @ ws2 @ fence"
  have body: "lazyBody ?P = Some (payload, [])"
  proof (rule lazyBody_append)
    show "\<forall>a s. payload = a @ s \<longrightarrow> s \<noteq> [] \<longrightarrow> closeFence (s @ ws2 @ fence) = None"
      using closeFence_inside [OF p(4) p(2)] by blast
    show "closeFence (ws2 @ fence) = Some []"
      using closeFence_spaces_fence [OF ws(2), of "[]"] by simp
  qed
  have hdP: "?P \<noteq> []" "\<not> isSpace (hd ?P)"
    using p by (simp_all add: isSpace_def)
  obtain more where sc: "spaceChoices (ws1 @ ?P) = ?P # more"
    using spaceChoices_head [OF ws(1) hdP] by blast
  have notjson: "\<not> prefix ''json'' (ws1 @ ?P)"
  proof (cases ws1)
    case Nil
    then show ?thesis using p(1,3) by (cases payload) simp_all
  next
    case (Cons c cs)
    then have "isSpace c" using ws(1) by simp
    then show ?thesis using Cons by (auto simp: isSpace_def)
  qed
  have "firstMatch (openings (tag @ ws1 @ ?P)) = Some (payload, [])"
    using tag
  proof
    assume "tag = []"
    then show ?thesis using notjson sc body by (simp add: openings_def)
  next
    assume "tag = ''json''"
    then show ?thesis using sc body by (simp add: openings_def)
  qed
  then show ?thesis by (simp add: matchFence_def fence_def)
qed

lemma candidate_of_fenced:
  assumes ws: "\<forall>c \<in> set ws0. isSpace c" "\<forall>c \<in> set ws1. isSpace c"
      "\<forall>c \<in> set ws2. isSpace c" "\<forall>c \<in> set ws3. isSpace c"
    and tag: "tag = [] \<or> tag = ''json''"
    and p: "hd payload = CHR ''{''" "last payload = CHR ''}''" "payload \<noteq> []"
      "\<not> includes_str payload fence"
  shows "candidateJson (trim (ws0 @ fence @ tag @ ws1 @ payload @ ws2 @ fence @ ws3)) = payload"
proof -
  let ?X = "fence @ tag @ ws1 @ payload @ ws2 @ fence"
  have "trim (ws0 @ ?X @ ws3) = ?X"
    by (rule trim_spaces [OF ws(1) ws(4)]) (simp_all add: fence_def isSpace_def)
  then have t: "trim (ws0 @ fence @ tag @ ws1 @ payload @ ws2 @ fence @ ws3) = ?X" by simp
  have m: "matchFence ?X = Some (payload, [])"
    by (rule matchFence_fenced [OF ws(2) ws(3) tag p])
  have "stripFences ?X = payload"
  proof -
    obtain c cs where "?X = c # cs" by (cases ?X) (simp_all add: fence_def)
    then show ?thesis using m by simp
  qed
  moreover have "trim payload = payload"
    using trim_spaces [of "[]" "[]" payload] p by (simp add: isSpace_def)
  moreover have "indexOf payload (CHR ''{'') = 0"
    using p(1,3) by (cases payload) simp_all
  moreover have "lastIndexOf payload (CHR ''}'') = int (length payload) - 1"
    using p(2,3) by (cases payload rule: rev_cases) (simp_all add: lastIndexOf_def)
  moreover have "2 \<le> length payload"
  proof (cases payload)
    case Nil
    with p(3) show ?thesis by simp
  next
    case (Cons c cs)
    with p(1,2) have "cs \<noteq> []" by auto
    with Cons show ?thesis by (cases cs) simp_all
  qed
  ultimately show ?thesis
    by (simp add: candidateJson_def t substring_def Let_def)
qed


lemma attempt_fail:
  "answer e ep = Inl msg \<Longrightarrow>
   attempt e ep st = Inr (st\<lparr>requests := requests st @ [requestUrl e ep], lastError := Some msg\<rparr>)"
  by (simp add: attempt_def answer_def)

lemma attempt_success:
  "answer e ep = Inr j \<Longrightarrow>
   attempt e ep st = Inl (st\<lparr>requests := requests st @ [requestUrl e ep], apiResponse := j\<rparr>)"
  by (simp add: attempt_def answer_def)

lemma tryEndpoints_all_fail:
  "\<forall>ep \<in> set eps. \<exists>msg. answer e ep = Inl msg \<Longrightarrow>
   apiResponse (tryEndpoints e eps st) = apiResponse st \<and>
   requests (tryEndpoints e eps st) = requests st @ map (requestUrl e) eps \<and>
   lastError (tryEndpoints e eps st) =
     (if eps = [] then lastError st else Some (projl (answer e (last eps))))"
proof (induction eps arbitrary: st)
  case Nil
  then show ?case by simp
next
  case (Cons ep eps)
  then obtain msg where m: "answer e ep = Inl msg" by auto
  from Cons.prems have "\<forall>ep \<in> set eps. \<exists>msg. answer e ep = Inl msg" by simp
  from Cons.IH [OF this] m show ?case
    by (simp add: attempt_fail)
qed

lemma tryEndpoints_first_success:
  "\<forall>p \<in> set pre. \<exists>msg. answer e p = Inl msg \<Longrightarrow> answer e ep = Inr j \<Longrightarrow>
   apiResponse (tryEndpoints e (pre @ ep # post) st) = j \<and>
   requests (tryEndpoints e (pre @ ep # post) st) = requests st @ map (requestUrl e) (pre @ [ep])"
proof (induction pre arbitrary: st)
  case Nil
  then show ?case by (simp add: attempt_success)
next
  case (Cons p pre)
  then obtain msg where m: "answer e p = Inl msg" by auto
  from Cons.prems have "\<forall>p \<in> set pre. \<exists>msg. answer e p = Inl msg" by simp
  from Cons.IH [OF this Cons.prems(2)] m show ?case
    by (simp add: attempt_fail)
qed

lemma tryEndpoints_requests_prefix:
  "\<exists>k \<le> length eps. requests (tryEndpoints e eps st) = requests st @ map (requestUrl e) (take k eps)"
proof (induction eps arbitrary: st)
  case Nil
  then show ?case by simp
next
  case (Cons ep eps)
  show ?case
  proof (cases "answer e ep")
    case (Inl msg)
    let ?st = "st\<lparr>requests := requests st @ [requestUrl e ep], lastError := Some msg\<rparr>"
    from Cons.IH [of ?st] obtain k where
      k: "k \<le> length eps" "requests (tryEndpoints e eps ?st) = requests ?st @ map (requestUrl e) (take k eps)"
      by blast
    then have "requests (tryEndpoints e (ep # eps) st) = requests st @ map (requestUrl e) (take (Suc k) (ep # eps))"
      using Inl by (simp add: attempt_fail)
    with k(1) show ?thesis by (intro exI [of _ "Suc k"]) simp
  next
    case (Inr j)
    then have "requests (tryEndpoints e (ep # eps) st) = requests st @ map (requestUrl e) (take 1 (ep # eps))"
      by (simp add: attempt_success)
    then show ?thesis by (intro exI [of _ 1]) simp
  qed
qed

lemma scanReceipt_requests:
  "\<exists>k \<le> length endpointsToTry. fst (scanReceipt e file) = map (requestUrl e) (take k endpointsToTry)"
proof -
  have z: "\<exists>k \<le> length endpointsToTry. [] = map (requestUrl e) (take k endpointsToTry)"
    by (intro exI [of _ 0]) simp
  have l: "\<exists>k \<le> length endpointsToTry.
      requests (tryEndpoints e endpointsToTry loopStart) = map (requestUrl e) (take k endpointsToTry)"
    using tryEndpoints_requests_prefix [of endpointsToTry e loopStart] by (simp add: loopStart_def)
  show ?thesis
    using z l
    by (auto simp: scanReceipt_def scanBody_def Let_def split: sum.splits entry.splits prod.splits)
qed

lemma endpoints_distinct: "length endpointsToTry = 4 \<and> distinct endpointsToTry"
  by (simp add: endpointsToTry_def)

lemma requestUrl_inj: "inj (requestUrl e)"
  by (simp add: inj_def requestUrl_def)

lemma scanReceipt_after_loop:
  assumes "preChecks e file = Inr (File f)" and "arrayBuffer f = Inr b"
  shows "scanReceipt e file =
    (requests (tryEndpoints e endpointsToTry loopStart),
     Inr (case afterLoop e (tryEndpoints e endpointsToTry loopStart) of
            Inl msg \<Rightarrow> errorResult e msg | Inr r \<Rightarrow> r))"
  using assms by (simp add: scanReceipt_def scanBody_def Let_def split: sum.splits)

text \<open>The definitions a concrete call unfolds to.\<close>

lemmas sample_defs = world_def answering_def firstThenRest_def okReply_def notFoundReply_def
  emptyOkReply_def geminiPayload_def photo_def largePhoto_def sampleCategories_def
  sampleDecoder_def sampleDateParse_def receiptJson_def receiptFields_def
  lotteryJson_def lotteryFields_def

lemmas scan_defs = scanReceipt_def scanBody_def preChecks_def afterLoop_def modelText_def
  endpointsToTry_def loopStart_def attempt_def answer_def outcome_def ok_def requestUrl_def
  trimmedText_def responseText_def optChain_def trim_def isSpace_def candidateJson_def
  matchFence_def fence_def openings_def spaceChoices_def closeFence_def lastIndexOf_def
  substring_def parseAndValidate_def validate_def amountOf_def dateOf_def textOr_def
  categoryOf_def validCategoryList_def validExpenseCategories_def expenseIds_def sentinel_def
  parseFailure_def errorResult_def Let_def

subsection \<open>The shape of every result\<close>



subsection \<open>Rejected inputs\<close>

text \<open>
  Claim C2, as the code has it. The three checks (no file, a file of more than 5 MB, no API
  key) throw inside the outer \<^verbatim>\<open>try\<close>, so their errors do not reach the caller:
  the call returns the value of the outer handler, whose description carries the message,
  and no request has been made. No error at all escapes \<^verbatim>\<open>scanReceipt\<close>: every
  call returns a value.
\<close>

theorem scanReceipt_rejections_returned:
  "(\<exists>r. snd (scanReceipt e file) = Inr r)
   \<and> (\<forall>msg. preChecks e file = Inl msg \<longrightarrow> scanReceipt e file = ([], Inr (errorResult e msg)))
   \<and> (file = Missing \<longrightarrow> preChecks e file = Inl ''No file provided'')
   \<and> (\<forall>f. file = File f \<longrightarrow> fileSize f > 5 * 1024 * 1024 \<longrightarrow>
         preChecks e file = Inl ''File size should be less than 5MB'')
   \<and> (\<forall>f. file = File f \<longrightarrow> fileSize f \<le> 5 * 1024 * 1024 \<longrightarrow>
         GEMINI_API_KEY e = None \<or> GEMINI_API_KEY e = Some [] \<longrightarrow>
         preChecks e file = Inl ''GEMINI_API_KEY is not configured in environment variables'')"
proof -
  have "\<exists>r. snd (scanReceipt e file) = Inr r"
    using scanReceipt_cases [of e "file"] by blast
  moreover have "\<forall>msg. preChecks e file = Inl msg \<longrightarrow> scanReceipt e file = ([], Inr (errorResult e msg))"
    by (simp add: scanReceipt_def scanBody_def)
  moreover have "file = Missing \<longrightarrow> preChecks e file = Inl ''No file provided''"
    by (simp add: preChecks_def)
  moreover have "\<forall>f. file = File f \<longrightarrow> fileSize f > 5 * 1024 * 1024 \<longrightarrow>
         preChecks e file = Inl ''File size should be less than 5MB''"
    by (simp add: preChecks_def)
  moreover have "\<forall>f. file = File f \<longrightarrow> fileSize f \<le> 5 * 1024 * 1024 \<longrightarrow>
         GEMINI_API_KEY e = None \<or> GEMINI_API_KEY e = Some [] \<longrightarrow>
         preChecks e file = Inl ''GEMINI_API_KEY is not configured in environment variables''"
    by (auto simp: preChecks_def)
  ultimately show ?thesis by blast
qed

theorem scanReceipt_rejections_returned_witness:
  "scanReceipt (answering receiptJson) largePhoto =
     ([], Inr (errorResult (answering receiptJson) ''File size should be less than 5MB''))"
proof -
  let ?w = "answering receiptJson"
  obtain f where f: "largePhoto = File f" "fileSize f > 5 * 1024 * 1024"
    by (simp add: largePhoto_def)
  from scanReceipt_rejections_returned [of ?w largePhoto] f
  have "preChecks ?w largePhoto = Inl ''File size should be less than 5MB''" by blast
  with scanReceipt_rejections_returned [of ?w largePhoto] show ?thesis by blast
qed

text \<open>
  With no file the claim expects the error \<^verbatim>\<open>No file provided\<close> to escape; the call
  returns a value instead.
\<close>

theorem scanReceipt_rejection_escapes_counterexample:
  "snd (scanReceipt (answering receiptJson) Missing) =
     Inr \<lparr>amount = Finite 0, date = Timestamp 1700000000000,
          description = ''Error: No file provided. Please manually enter receipt details.'',
          merchantName = ''Error occurred'', category = ''other-expense''\<rparr>
   \<and> snd (scanReceipt (answering receiptJson) Missing) \<noteq> Inl ''No file provided''
   \<and> fst (scanReceipt (answering receiptJson) Missing) = []"
  by (simp add: sample_defs scan_defs)

subsection \<open>The endpoint loop\<close>

lemma scanReceipt_requests_distinct: "distinct (fst (scanReceipt e file))"
proof -
  obtain k where "fst (scanReceipt e file) = map (requestUrl e) (take k endpointsToTry)"
    using scanReceipt_requests [of e "file"] by blast
  moreover have "distinct (take k endpointsToTry)"
    using endpoints_distinct by simp
  ultimately show ?thesis
    using requestUrl_inj [of e] by (simp add: distinct_map inj_on_def inj_def)
qed

lemma afterLoop_truthy:
  "truthy (apiResponse st) \<Longrightarrow>
   afterLoop e st =
     (case trimmedText (apiResponse st) of
        Inl msg \<Rightarrow> Inl msg
      | Inr t \<Rightarrow> Inr (parseAndValidate e (candidateJson t)))"
  by (simp add: afterLoop_def)

lemma endpoints_split2:
  "endpointsToTry = [hd endpointsToTry] @ (endpointsToTry ! 1) # drop 2 endpointsToTry"
  by (simp add: endpointsToTry_def)

text \<open>
  Claim C3, as the code has it. The list has four distinct endpoints; the URLs requested
  are those of an initial part of the list, in order, so no endpoint is requested twice.
  An attempt succeeds when the response has a 2xx status and its body decodes as JSON;
  the loop stops at the first attempt that succeeds and keeps its payload. When the
  attempts before it failed and the payload is truthy (an object, as the API sends), the
  result is computed from that payload alone: the earlier failures do not show in it.
\<close>

theorem endpoint_loop_first_success:
  "length endpointsToTry = 4 \<and> distinct endpointsToTry
   \<and> (\<exists>k \<le> length endpointsToTry. fst (scanReceipt e file) = map (requestUrl e) (take k endpointsToTry))
   \<and> distinct (fst (scanReceipt e file))
   \<and> (\<forall>f b pre ep post j.
         preChecks e file = Inr (File f) \<longrightarrow> arrayBuffer f = Inr b \<longrightarrow>
         endpointsToTry = pre @ ep # post \<longrightarrow>
         (\<forall>p \<in> set pre. \<exists>msg. answer e p = Inl msg) \<longrightarrow> answer e ep = Inr j \<longrightarrow>
           fst (scanReceipt e file) = map (requestUrl e) (pre @ [ep]) \<and>
           (truthy j \<longrightarrow>
              snd (scanReceipt e file) =
                Inr (case trimmedText j of
                       Inl msg \<Rightarrow> errorResult e msg
                     | Inr t \<Rightarrow> parseAndValidate e (candidateJson t))))"
proof -
  have main: "fst (scanReceipt e file) = map (requestUrl e) (pre @ [ep]) \<and>
           (truthy j \<longrightarrow>
              snd (scanReceipt e file) =
                Inr (case trimmedText j of
                       Inl msg \<Rightarrow> errorResult e msg
                     | Inr t \<Rightarrow> parseAndValidate e (candidateJson t)))"
    if h: "preChecks e file = Inr (File f)" "arrayBuffer f = Inr b"
      "endpointsToTry = pre @ ep # post"
      "\<forall>p \<in> set pre. \<exists>msg. answer e p = Inl msg" "answer e ep = Inr j"
    for f b pre ep post j
  proof -
    let ?st = "tryEndpoints e endpointsToTry loopStart"
    have st: "apiResponse ?st = j" "requests ?st = map (requestUrl e) (pre @ [ep])"
      using tryEndpoints_first_success [OF h(4) h(5), of post loopStart] h(3)
      by (simp_all add: loopStart_def)
    have s: "scanReceipt e file =
        (requests ?st, Inr (case afterLoop e ?st of Inl msg \<Rightarrow> errorResult e msg | Inr r \<Rightarrow> r))"
      by (rule scanReceipt_after_loop [OF h(1) h(2)])
    have "truthy j \<Longrightarrow> afterLoop e ?st =
        (case trimmedText j of Inl msg \<Rightarrow> Inl msg | Inr t \<Rightarrow> Inr (parseAndValidate e (candidateJson t)))"
      using afterLoop_truthy [of ?st e] st(1) by simp
    then show ?thesis
      using s st by (auto split: sum.splits)
  qed
  show ?thesis
    using endpoints_distinct scanReceipt_requests [of e "file"] scanReceipt_requests_distinct [of e "file"] main
    by blast
qed

theorem endpoint_loop_first_success_witness:
  "scanReceipt (firstThenRest notFoundReply (okReply (geminiPayload receiptJson))) photo =
     ([''https://generativelanguage.googleapis.com/v1beta/models/gemini-1.5-flash-002:generateContent?key=k'',
       ''https://generativelanguage.googleapis.com/v1beta/models/gemini-1.5-pro-002:generateContent?key=k''],
      Inr \<lparr>amount = Finite (2999 / 100), date = Timestamp 1703462400000,
           description = ''Grocery shopping'', merchantName = ''Store Name'',
           category = ''groceries''\<rparr>)"
proof -
  let ?w = "firstThenRest notFoundReply (okReply (geminiPayload receiptJson))"
  let ?f = "\<lparr>fileSize = 1000, fileType = ''image/png'', arrayBuffer = Inr [137, 80, 78, 71]\<rparr>"
  have 1: "preChecks ?w photo = Inr (File ?f)"
    by (simp add: sample_defs scan_defs)
  have 2: "arrayBuffer ?f = Inr [137, 80, 78, 71]" by simp
  have 3: "\<forall>p \<in> set [hd endpointsToTry]. \<exists>msg. answer ?w p = Inl msg"
    by (simp add: sample_defs scan_defs)
  have 4: "answer ?w (endpointsToTry ! 1) = Inr (geminiPayload receiptJson)"
    by (simp add: sample_defs scan_defs)
  have 5: "truthy (geminiPayload receiptJson)"
    by (simp add: geminiPayload_def)
  from endpoint_loop_first_success [of ?w photo] 1 2 endpoints_split2 3 4 5
  have "fst (scanReceipt ?w photo) = map (requestUrl ?w) ([hd endpointsToTry] @ [endpointsToTry ! 1])
      \<and> snd (scanReceipt ?w photo) =
          Inr (case trimmedText (geminiPayload receiptJson) of
                 Inl msg \<Rightarrow> errorResult ?w msg
               | Inr t \<Rightarrow> parseAndValidate ?w (candidateJson t))"
    by blast
  moreover have "map (requestUrl ?w) ([hd endpointsToTry] @ [endpointsToTry ! 1]) =
     [''https://generativelanguage.googleapis.com/v1beta/models/gemini-1.5-flash-002:generateContent?key=k'',
      ''https://generativelanguage.googleapis.com/v1beta/models/gemini-1.5-pro-002:generateContent?key=k'']"
    by (simp add: sample_defs scan_defs)
  moreover have "(case trimmedText (geminiPayload receiptJson) of
                 Inl msg \<Rightarrow> errorResult ?w msg
               | Inr t \<Rightarrow> parseAndValidate ?w (candidateJson t)) =
      \<lparr>amount = Finite (2999 / 100), date = Timestamp 1703462400000,
           description = ''Grocery shopping'', merchantName = ''Store Name'',
           category = ''groceries''\<rparr>"
    by (simp add: sample_defs scan_defs)
  ultimately show ?thesis
    by (simp add: prod_eq_iff)
qed

text \<open>
  A first endpoint that answers 200 with a body that does not decode does not stop the
  loop: the second endpoint is requested as well. And when the first endpoint answers 404
  and the second answers 200 with the body \<^verbatim>\<open>null\<close>, the error of the first endpoint
  is what the caller gets.
\<close>

theorem endpoint_loop_http_success_counterexample:
  "fetch (firstThenRest emptyOkReply (okReply (geminiPayload receiptJson)))
      ''https://generativelanguage.googleapis.com/v1beta/models/gemini-1.5-flash-002:generateContent?key=k''
     = Resolved \<lparr>status = 200, statusText = ''OK'', bodyText = Inr [],
                  bodyJson = Inl ''Unexpected end of JSON input''\<rparr>
   \<and> fst (scanReceipt (firstThenRest emptyOkReply (okReply (geminiPayload receiptJson))) photo) =
       [''https://generativelanguage.googleapis.com/v1beta/models/gemini-1.5-flash-002:generateContent?key=k'',
        ''https://generativelanguage.googleapis.com/v1beta/models/gemini-1.5-pro-002:generateContent?key=k'']
   \<and> snd (scanReceipt (firstThenRest notFoundReply (okReply JNull)) photo) =
       Inr \<lparr>amount = Finite 0, date = Timestamp 1700000000000,
            description = ''Error: API request failed: 404 Not Found - model not found. Please manually enter receipt details.'',
            merchantName = ''Error occurred'', category = ''other-expense''\<rparr>"
  by (simp add: sample_defs scan_defs showNat.simps)

lemma includes_middle: "includes_str (p @ m @ q) m"
  unfolding includes_str_iff by blast

text \<open>
  Claim C4. When every attempt fails, all four endpoints have been requested and the call
  returns the value of the outer handler for the error of the last attempt: the
  description contains the message of that error, the amount is 0 and the category is the
  sentinel.
\<close>

theorem all_endpoints_fail:
  assumes "preChecks e file = Inr (File f)" and "arrayBuffer f = Inr b"
    and "\<forall>ep \<in> set endpointsToTry. \<exists>msg. answer e ep = Inl msg"
    and "answer e (last endpointsToTry) = Inl m"
  shows "scanReceipt e file = (map (requestUrl e) endpointsToTry, Inr (errorResult e m))
          \<and> description (errorResult e m) = ''Error: '' @ m @ ''. Please manually enter receipt details.''
          \<and> includes_str (description (errorResult e m)) m
          \<and> amount (errorResult e m) = Finite 0
          \<and> category (errorResult e m) = sentinel"
proof -
  let ?st = "tryEndpoints e endpointsToTry loopStart"
  have ne: "endpointsToTry \<noteq> []" by (simp add: endpointsToTry_def)
  have st: "apiResponse ?st = JNull" "requests ?st = map (requestUrl e) endpointsToTry"
      "lastError ?st = Some m"
    using tryEndpoints_all_fail [OF assms(3), of loopStart] ne assms(4)
    by (simp_all add: loopStart_def)
  then have "afterLoop e ?st = Inl m"
    by (simp add: afterLoop_def)
  then have "scanReceipt e file = (map (requestUrl e) endpointsToTry, Inr (errorResult e m))"
    using scanReceipt_after_loop [OF assms(1) assms(2)] st(2) by simp
  moreover have "includes_str (description (errorResult e m)) m"
    using includes_middle [of "''Error: ''" m] by (simp add: errorResult_def)
  ultimately show ?thesis
    by (simp add: errorResult_def sentinel_def)
qed

theorem all_endpoints_fail_witness:
  "snd (scanReceipt (world (\<lambda>url. notFoundReply)) photo) =
     Inr \<lparr>amount = Finite 0, date = Timestamp 1700000000000,
          description = ''Error: API request failed: 404 Not Found - model not found. Please manually enter receipt details.'',
          merchantName = ''Error occurred'', category = ''other-expense''\<rparr>
   \<and> length (fst (scanReceipt (world (\<lambda>url. notFoundReply)) photo)) = 4"
proof -
  let ?w = "world (\<lambda>url. notFoundReply)"
  let ?f = "\<lparr>fileSize = 1000, fileType = ''image/png'', arrayBuffer = Inr [137, 80, 78, 71]\<rparr>"
  let ?m = "''API request failed: 404 Not Found - model not found''"
  have 1: "preChecks ?w photo = Inr (File ?f)"
    by (simp add: sample_defs scan_defs)
  have 2: "arrayBuffer ?f = Inr [137, 80, 78, 71]" by simp
  have a: "answer ?w ep = Inl ?m" for ep
    by (simp add: sample_defs answer_def outcome_def ok_def showNat.simps)
  then have 3: "\<forall>ep \<in> set endpointsToTry. \<exists>msg. answer ?w ep = Inl msg" by blast
  from all_endpoints_fail [OF 1 2 3 a]
  have "scanReceipt ?w photo = (map (requestUrl ?w) endpointsToTry, Inr (errorResult ?w ?m))"
    by blast
  then show ?thesis
    by (simp add: errorResult_def world_def endpointsToTry_def)
qed

subsection \<open>Decoding and validation\<close>

text \<open>
  Claim C5. When the candidate text fails to decode, the call returns the fixed default
  value: amount 0, the current time, the description with the marker
  \<^verbatim>\<open>format not recognized\<close>, the merchant \<^verbatim>\<open>Unknown merchant\<close> and the sentinel
  category.
\<close>

theorem decode_failure_default:
  assumes "modelText e file = Some t" and "JSON_parse e (candidateJson t) = Inl msg"
  shows "snd (scanReceipt e file) = Inr (parseFailure e)
     \<and> parseFailure e =
         \<lparr>amount = Finite 0, date = Timestamp (now e),
          description = ''Receipt scan - AI response format not recognized. Please manually enter details.'',
          merchantName = ''Unknown merchant'', category = sentinel\<rparr>
     \<and> includes_str (description (parseFailure e)) ''format not recognized''"
proof -
  have "snd (scanReceipt e file) = Inr (parseFailure e)"
    using scanReceipt_modelText [OF assms(1)] assms(2) by (simp add: parseAndValidate_def)
  moreover have "includes_str (description (parseFailure e)) ''format not recognized''"
    using includes_middle [of "''Receipt scan - AI response ''" "''format not recognized''"
        "''. Please manually enter details.''"]
    by (simp add: parseFailure_def)
  ultimately show ?thesis
    by (simp add: parseFailure_def sentinel_def)
qed

theorem decode_failure_default_witness:
  "snd (scanReceipt (answering ''I cannot read this image.'') photo) =
     Inr \<lparr>amount = Finite 0, date = Timestamp 1700000000000,
          description = ''Receipt scan - AI response format not recognized. Please manually enter details.'',
          merchantName = ''Unknown merchant'', category = ''other-expense''\<rparr>"
proof -
  let ?t = "''I cannot read this image.''"
  let ?w = "answering ?t"
  have 1: "modelText ?w photo = Some ?t"
    by (simp add: sample_defs scan_defs)
  have 2: "JSON_parse ?w (candidateJson ?t) = Inl ''Unexpected token''"
    by (simp add: sample_defs scan_defs)
  from decode_failure_default [OF 1 2]
  have "snd (scanReceipt ?w photo) = Inr (parseFailure ?w)" by blast
  then show ?thesis
    by (simp add: parseFailure_def answering_def world_def)
qed

text \<open>
  Claim C6 says that an absent or unparsable date is replaced by the current time. The
  code replaces a date that is absent or falsy; a date it cannot parse is handed to
  \<^verbatim>\<open>new Date\<close> and comes back as Invalid Date. Here the model answers
  \<^verbatim>\<open>{"date":"unknown"}\<close>.
\<close>

theorem unparsable_date_stays_invalid:
  "snd (scanReceipt (answering ''{\"date\":\"unknown\"}'') photo) =
     Inr \<lparr>amount = Finite 0, date = InvalidDate, description = ''Receipt scan'',
          merchantName = ''Unknown merchant'', category = ''other-expense''\<rparr>"
  by (simp add: sample_defs scan_defs)

lemma stripFences_fenced:
  assumes "\<forall>c \<in> set ws1. isSpace c" and "\<forall>c \<in> set ws2. isSpace c"
    and "tag = [] \<or> tag = ''json''"
    and "hd payload = CHR ''{''" and "last payload = CHR ''}''" and "payload \<noteq> []"
    and "\<not> includes_str payload fence"
  shows "stripFences (fence @ tag @ ws1 @ payload @ ws2 @ fence) = payload"
proof -
  let ?X = "fence @ tag @ ws1 @ payload @ ws2 @ fence"
  have m: "matchFence ?X = Some (payload, [])"
    by (rule matchFence_fenced [OF assms])
  obtain c cs where "?X = c # cs" by (cases ?X) (simp_all add: fence_def)
  then show ?thesis using m by simp
qed

lemma trim_fenced:
  assumes "\<forall>c \<in> set ws0. isSpace c" and "\<forall>c \<in> set ws3. isSpace c"
  shows "trim (ws0 @ fence @ tag @ ws1 @ payload @ ws2 @ fence @ ws3) =
         fence @ tag @ ws1 @ payload @ ws2 @ fence"
proof -
  let ?X = "fence @ tag @ ws1 @ payload @ ws2 @ fence"
  have "trim (ws0 @ ?X @ ws3) = ?X"
    by (rule trim_spaces [OF assms]) (simp_all add: fence_def isSpace_def)
  then show ?thesis by simp
qed

text \<open>
  Claim C7, as the code has it. The text of the model is a JSON object between an opening
  fence (with or without the word json) and a closing fence, with any white space around;
  the object's text contains no run of three backticks. Then trimming leaves the fenced
  text, the replacement strips the two fences and the white space inside them and leaves
  exactly the object's text, the cut from the first opening brace to the last closing
  brace keeps all of it, and the result is the validation of the decoded object: its
  sanitised amount, date, description, merchant name and category (the fixed default of
  the inner handler when building the date throws).
\<close>

theorem fenced_json_is_parsed:
  assumes "\<forall>c \<in> set ws0. isSpace c" and "\<forall>c \<in> set ws1. isSpace c"
    and "\<forall>c \<in> set ws2. isSpace c" and "\<forall>c \<in> set ws3. isSpace c"
    and "tag = [] \<or> tag = ''json''"
    and "hd payload = CHR ''{''" and "last payload = CHR ''}''" and "payload \<noteq> []"
    and "\<not> includes_str payload fence"
    and "modelText e file = Some (trim (ws0 @ fence @ tag @ ws1 @ payload @ ws2 @ fence @ ws3))"
    and "JSON_parse e payload = Inr (JObj kvs)"
  shows "trim (ws0 @ fence @ tag @ ws1 @ payload @ ws2 @ fence @ ws3) =
           fence @ tag @ ws1 @ payload @ ws2 @ fence
     \<and> stripFences (fence @ tag @ ws1 @ payload @ ws2 @ fence) = payload
     \<and> candidateJson (trim (ws0 @ fence @ tag @ ws1 @ payload @ ws2 @ fence @ ws3)) = payload
     \<and> snd (scanReceipt e file) =
         Inr (case dateOf e (JObj kvs) of
                Inl msg \<Rightarrow> parseFailure e
              | Inr dt \<Rightarrow>
                  \<lparr>amount = (case map_of kvs ''amount'' of Some (JNum n) \<Rightarrow> Math_abs n | _ \<Rightarrow> Finite 0),
                   date = dt,
                   description =
                     (case map_of kvs ''description'' of
                        Some (JStr s) \<Rightarrow> if trim s \<noteq> [] then trim s else ''Receipt scan''
                      | _ \<Rightarrow> ''Receipt scan''),
                   merchantName =
                     (case map_of kvs ''merchantName'' of
                        Some (JStr s) \<Rightarrow> if trim s \<noteq> [] then trim s else ''Unknown merchant''
                      | _ \<Rightarrow> ''Unknown merchant''),
                   category =
                     (case map_of kvs ''category'' of
                        Some (JStr s) \<Rightarrow>
                          if s \<noteq> [] \<and> s \<in> set (validCategoryList e) then s else sentinel
                      | _ \<Rightarrow> sentinel)\<rparr>)"
proof -
  have t: "trim (ws0 @ fence @ tag @ ws1 @ payload @ ws2 @ fence @ ws3) =
           fence @ tag @ ws1 @ payload @ ws2 @ fence"
    by (rule trim_fenced [OF assms(1) assms(4)])
  have st: "stripFences (fence @ tag @ ws1 @ payload @ ws2 @ fence) = payload"
    by (rule stripFences_fenced [OF assms(2,3,5-9)])
  have c: "candidateJson (trim (ws0 @ fence @ tag @ ws1 @ payload @ ws2 @ fence @ ws3)) = payload"
    by (rule candidate_of_fenced [OF assms(1-9)])
  have pv: "snd (scanReceipt e file) = Inr (parseAndValidate e payload)"
    using scanReceipt_modelText [OF assms(10)] c by simp
  have pv2: "parseAndValidate e payload =
         (case dateOf e (JObj kvs) of
                Inl msg \<Rightarrow> parseFailure e
              | Inr dt \<Rightarrow>
                  \<lparr>amount = (case map_of kvs ''amount'' of Some (JNum n) \<Rightarrow> Math_abs n | _ \<Rightarrow> Finite 0),
                   date = dt,
                   description =
                     (case map_of kvs ''description'' of
                        Some (JStr s) \<Rightarrow> if trim s \<noteq> [] then trim s else ''Receipt scan''
                      | _ \<Rightarrow> ''Receipt scan''),
                   merchantName =
                     (case map_of kvs ''merchantName'' of
                        Some (JStr s) \<Rightarrow> if trim s \<noteq> [] then trim s else ''Unknown merchant''
                      | _ \<Rightarrow> ''Unknown merchant''),
                   category =
                     (case map_of kvs ''category'' of
                        Some (JStr s) \<Rightarrow>
                          if s \<noteq> [] \<and> s \<in> set (validCategoryList e) then s else sentinel
                      | _ \<Rightarrow> sentinel)\<rparr>)"
  proof (cases "dateOf e (JObj kvs)")
    case (Inl msg)
    then show ?thesis
      using assms(11) by (simp add: parseAndValidate_def validate_def)
  next
    case (Inr dt)
    then show ?thesis
      using assms(11)
      by (simp add: parseAndValidate_def validate_def amountOf_def textOr_def categoryOf_def)
  qed
  have "snd (scanReceipt e file) =
         Inr (case dateOf e (JObj kvs) of
                Inl msg \<Rightarrow> parseFailure e
              | Inr dt \<Rightarrow>
                  \<lparr>amount = (case map_of kvs ''amount'' of Some (JNum n) \<Rightarrow> Math_abs n | _ \<Rightarrow> Finite 0),
                   date = dt,
                   description =
                     (case map_of kvs ''description'' of
                        Some (JStr s) \<Rightarrow> if trim s \<noteq> [] then trim s else ''Receipt scan''
                      | _ \<Rightarrow> ''Receipt scan''),
                   merchantName =
                     (case map_of kvs ''merchantName'' of
                        Some (JStr s) \<Rightarrow> if trim s \<noteq> [] then trim s else ''Unknown merchant''
                      | _ \<Rightarrow> ''Unknown merchant''),
                   category =
                     (case map_of kvs ''category'' of
                        Some (JStr s) \<Rightarrow>
                          if s \<noteq> [] \<and> s \<in> set (validCategoryList e) then s else sentinel
                      | _ \<Rightarrow> sentinel)\<rparr>)"
    using pv unfolding pv2 .
  with t st c show ?thesis by blast
qed

theorem fenced_json_is_parsed_witness:
  "stripFences (''```json'' @ [CHR 0x0A] @ receiptJson @ [CHR 0x0A] @ ''```'') = receiptJson
   \<and> snd (scanReceipt (answering (''```json'' @ [CHR 0x0A] @ receiptJson @ [CHR 0x0A] @ ''```'')) photo) =
       Inr \<lparr>amount = Finite (2999 / 100), date = Timestamp 1703462400000,
            description = ''Grocery shopping'', merchantName = ''Store Name'',
            category = ''groceries''\<rparr>"
proof -
  let ?raw = "[] @ fence @ ''json'' @ [CHR 0x0A] @ receiptJson @ [CHR 0x0A] @ fence @ []"
  let ?w = "answering (''```json'' @ [CHR 0x0A] @ receiptJson @ [CHR 0x0A] @ ''```'')"
  have sp: "\<forall>c \<in> set []. isSpace c" "\<forall>c \<in> set [CHR 0x0A]. isSpace c"
    by (simp_all add: isSpace_def)
  have tag: "''json'' = [] \<or> ''json'' = ''json''" by simp
  have p: "hd receiptJson = CHR ''{''" "last receiptJson = CHR ''}''" "receiptJson \<noteq> []"
    by (simp_all add: receiptJson_def)
  have nf: "\<not> includes_str receiptJson fence"
    by (simp add: receiptJson_def fence_def)
  have m: "modelText ?w photo = Some (trim ?raw)"
    by (simp add: sample_defs scan_defs)
  have j: "JSON_parse ?w receiptJson = Inr (JObj receiptFields)"
    by (simp add: sample_defs)
  have d: "dateOf ?w (JObj receiptFields) = Inr (Timestamp 1703462400000)"
    by (simp add: sample_defs dateOf_def)
  note main = fenced_json_is_parsed [OF sp(1) sp(2) sp(2) sp(1) tag p nf m j]
  from main have "stripFences (fence @ ''json'' @ [CHR 0x0A] @ receiptJson @ [CHR 0x0A] @ fence) = receiptJson"
    by blast
  then have 1: "stripFences (''```json'' @ [CHR 0x0A] @ receiptJson @ [CHR 0x0A] @ ''```'') = receiptJson"
    by (simp add: fence_def)
  from main have "snd (scanReceipt ?w photo) =
         Inr (case dateOf ?w (JObj receiptFields) of
                Inl msg \<Rightarrow> parseFailure ?w
              | Inr dt \<Rightarrow>
                  \<lparr>amount = (case map_of receiptFields ''amount'' of Some (JNum n) \<Rightarrow> Math_abs n | _ \<Rightarrow> Finite 0),
                   date = dt,
                   description =
                     (case map_of receiptFields ''description'' of
                        Some (JStr s) \<Rightarrow> if trim s \<noteq> [] then trim s else ''Receipt scan''
                      | _ \<Rightarrow> ''Receipt scan''),
                   merchantName =
                     (case map_of receiptFields ''merchantName'' of
                        Some (JStr s) \<Rightarrow> if trim s \<noteq> [] then trim s else ''Unknown merchant''
                      | _ \<Rightarrow> ''Unknown merchant''),
                   category =
                     (case map_of receiptFields ''category'' of
                        Some (JStr s) \<Rightarrow>
                          if s \<noteq> [] \<and> s \<in> set (validCategoryList ?w) then s else sentinel
                      | _ \<Rightarrow> sentinel)\<rparr>)"
    by blast
  then have 2: "snd (scanReceipt ?w photo) =
       Inr \<lparr>amount = Finite (2999 / 100), date = Timestamp 1703462400000,
            description = ''Grocery shopping'', merchantName = ''Store Name'',
            category = ''groceries''\<rparr>"
    unfolding d
    by (simp add: receiptFields_def answering_def world_def sampleCategories_def
        validCategoryList_def validExpenseCategories_def expenseIds_def trim_def isSpace_def)
  from 1 2 show ?thesis by blast
qed

text \<open>
  A fenced object whose description contains three backticks: the expression pairs the
  opening fence with them, and the description that comes back has lost them.
\<close>

theorem fenced_json_backticks_counterexample:
  "JSON_parse (answering (''```json'' @ [CHR 0x0A] @ ''{\"description\":\"a```b\"}'' @ [CHR 0x0A] @ ''```''))
      ''{\"description\":\"a```b\"}'' = Inr (JObj [(''description'', JStr ''a```b'')])
   \<and> candidateJson (trim (''```json'' @ [CHR 0x0A] @ ''{\"description\":\"a```b\"}'' @ [CHR 0x0A] @ ''```''))
       = ''{\"description\":\"ab\"}''
   \<and> snd (scanReceipt
        (answering (''```json'' @ [CHR 0x0A] @ ''{\"description\":\"a```b\"}'' @ [CHR 0x0A] @ ''```'')) photo) =
       Inr \<lparr>amount = Finite 0, date = Timestamp 1700000000000, description = ''ab'',
            merchantName = ''Unknown merchant'', category = ''other-expense''\<rparr>"
  by (simp add: sample_defs scan_defs)

section \<open>Properties of the scanner widget\<close>

text \<open>
  Claim C8, as the code has it. The error markers come first; then a positive amount gives
  the success toast, whatever the description says; then the format marker gives the
  format notice; then a description that is not generic gives the success toast; the rest
  is the fallback notice. This agrees with the order of the specification except on a
  result with a positive amount whose description contains the format marker.
\<close>

theorem toast_order:
  "toastFor r =
     (if hasErrorMarker (description r) then ErrorToast
      else if positive (amount r) then SuccessToast
      else if includes_str (description r) ''format not recognized'' then FormatInfoToast
      else if nonGeneric (description r) then SuccessToast
      else FallbackInfoToast)
   \<and> (toastFor r = toastBySpec r \<longleftrightarrow>
        \<not> (positive (amount r) \<and> includes_str (description r) ''format not recognized''
            \<and> \<not> hasErrorMarker (description r)))"
proof -
  have e: "hasErrorMarker d \<longleftrightarrow> includes_str d ''Error:'' \<or> includes_str d ''Failed to connect''" for d
    by (cases d) (simp_all add: hasErrorMarker_def)
  have n: "includes_str d ''format not recognized'' \<Longrightarrow> d \<noteq> [] \<and> \<not> nonGeneric d" for d
    by (cases d) (simp_all add: nonGeneric_def)
  show ?thesis
    using n [of "description r"] e [of "description r"]
    by (auto simp: toastFor_def toastBySpec_def)
qed

theorem toast_order_witness:
  "toastFor (parseFailure (answering [])) = FormatInfoToast
   \<and> toastBySpec (parseFailure (answering [])) = FormatInfoToast"
proof -
  let ?r = "parseFailure (answering [])"
  have a: "\<not> positive (amount ?r)" by (simp add: parseFailure_def)
  have f: "includes_str (description ?r) ''format not recognized''"
    using includes_middle [of "''Receipt scan - AI response ''" "''format not recognized''"
        "''. Please manually enter details.''"]
    by (simp add: parseFailure_def)
  have h: "\<not> hasErrorMarker (description ?r)"
    by (simp add: parseFailure_def hasErrorMarker_def)
  have 1: "toastFor ?r = FormatInfoToast"
    using toast_order [of ?r] a f h by simp
  have 2: "toastBySpec ?r = toastFor ?r"
    using toast_order [of ?r] a by auto
  from 1 2 show ?thesis by simp
qed

text \<open>
  A result \<^verbatim>\<open>scanReceipt\<close> can return: a positive amount and a description with the
  format marker. The widget shows the success toast; the order of the specification gives
  the format notice.
\<close>

theorem toast_order_counterexample:
  "snd (scanReceipt (answering ''{\"amount\":12.5,\"description\":\"Card format not recognized\"}'') photo) =
     Inr \<lparr>amount = Finite (25 / 2), date = Timestamp 1700000000000,
          description = ''Card format not recognized'', merchantName = ''Unknown merchant'',
          category = ''other-expense''\<rparr>
   \<and> toastFor \<lparr>amount = Finite (25 / 2), date = Timestamp 1700000000000,
          description = ''Card format not recognized'', merchantName = ''Unknown merchant'',
          category = ''other-expense''\<rparr> = SuccessToast
   \<and> toastBySpec \<lparr>amount = Finite (25 / 2), date = Timestamp 1700000000000,
          description = ''Card format not recognized'', merchantName = ''Unknown merchant'',
          category = ''other-expense''\<rparr> = FormatInfoToast"
  by (simp add: sample_defs scan_defs toastFor_def toastBySpec_def hasErrorMarker_def nonGeneric_def)

section \<open>Properties of the dashboard actions\<close>

text \<open>
  Claim C9. When the authentication gives a user id, \<^verbatim>\<open>getUserAccounts\<close> and
  \<^verbatim>\<open>getDashboardData\<close> return a list and never throw. When the user lookup throws or
  finds no user, or the query for the rows throws, the list is empty: the same value as
  for a user who has no rows.
\<close>

theorem readers_never_throw:
  assumes "uid \<noteq> []"
  shows "(\<exists>rows. getUserAccounts db (Some uid) = Inr rows)
     \<and> (\<exists>rows. getDashboardData db (Some uid) = Inr rows)
     \<and> ((\<exists>msg. findUser db uid = Inl msg) \<or> findUser db uid = Inr None \<longrightarrow>
          getUserAccounts db (Some uid) = Inr [] \<and> getDashboardData db (Some uid) = Inr [])
     \<and> (\<forall>u msg. findUser db uid = Inr (Some u) \<longrightarrow> findAccounts db u = Inl msg \<longrightarrow>
          getUserAccounts db (Some uid) = Inr [])
     \<and> (\<forall>u msg. findUser db uid = Inr (Some u) \<longrightarrow> findTransactions db u = Inl msg \<longrightarrow>
          getDashboardData db (Some uid) = Inr [])
     \<and> (\<forall>u. findUser db uid = Inr (Some u) \<longrightarrow> findAccounts db u = Inr [] \<longrightarrow>
          getUserAccounts db (Some uid) = Inr [])
     \<and> (\<forall>u. findUser db uid = Inr (Some u) \<longrightarrow> findTransactions db u = Inr [] \<longrightarrow>
          getDashboardData db (Some uid) = Inr [])"
proof -
  have a: "\<exists>rows. getUserAccounts db (Some uid) = Inr rows"
    using assms by (simp add: getUserAccounts_def split: sum.splits option.splits)
  have b: "\<exists>rows. getDashboardData db (Some uid) = Inr rows"
    using assms by (simp add: getDashboardData_def split: sum.splits option.splits)
  have c: "(\<exists>msg. findUser db uid = Inl msg) \<or> findUser db uid = Inr None \<longrightarrow>
          getUserAccounts db (Some uid) = Inr [] \<and> getDashboardData db (Some uid) = Inr []"
    using assms by (auto simp: getUserAccounts_def getDashboardData_def)
  have d: "\<forall>u msg. findUser db uid = Inr (Some u) \<longrightarrow> findAccounts db u = Inl msg \<longrightarrow>
          getUserAccounts db (Some uid) = Inr []"
    using assms by (simp add: getUserAccounts_def)
  have e: "\<forall>u msg. findUser db uid = Inr (Some u) \<longrightarrow> findTransactions db u = Inl msg \<longrightarrow>
          getDashboardData db (Some uid) = Inr []"
    using assms by (simp add: getDashboardData_def)
  have f: "\<forall>u. findUser db uid = Inr (Some u) \<longrightarrow> findAccounts db u = Inr [] \<longrightarrow>
          getUserAccounts db (Some uid) = Inr []"
    using assms by (simp add: getUserAccounts_def)
  have g: "\<forall>u. findUser db uid = Inr (Some u) \<longrightarrow> findTransactions db u = Inr [] \<longrightarrow>
          getDashboardData db (Some uid) = Inr []"
    using assms by (simp add: getDashboardData_def)
  from a b c d e f g show ?thesis by blast
qed

theorem readers_never_throw_witness:
  "getUserAccounts unreachableStore (Some ''clerk_1'') = Inr []
   \<and> getDashboardData unreachableStore (Some ''clerk_1'') = Inr []
   \<and> getUserAccounts emptyStore (Some ''clerk_1'') = Inr []
   \<and> getDashboardData emptyStore (Some ''clerk_1'') = Inr []"
proof -
  have n: "''clerk_1'' \<noteq> []" by simp
  have u: "\<exists>msg. findUser unreachableStore ''clerk_1'' = Inl msg"
    by (simp add: unreachableStore_def)
  have e: "findUser emptyStore ''clerk_1'' = Inr (Some ''user_1'')"
      "findAccounts emptyStore ''user_1'' = Inr []" "findTransactions emptyStore ''user_1'' = Inr []"
    by (simp_all add: emptyStore_def)
  from readers_never_throw [OF n, of unreachableStore] u
  have "getUserAccounts unreachableStore (Some ''clerk_1'') = Inr []
      \<and> getDashboardData unreachableStore (Some ''clerk_1'') = Inr []"
    by blast
  moreover from readers_never_throw [OF n, of emptyStore] e
  have "getUserAccounts emptyStore (Some ''clerk_1'') = Inr []
      \<and> getDashboardData emptyStore (Some ''clerk_1'') = Inr []"
    by blast
  ultimately show ?thesis by blast
qed

lemma defaultsOf_unset_same: "defaultsOf u (unsetDefaults u table) = []"
  by (induction table) (simp_all add: defaultsOf_def unsetDefaults_def)

lemma defaultsOf_unset_other: "u' \<noteq> u \<Longrightarrow> defaultsOf u' (unsetDefaults u table) = defaultsOf u' table"
  by (induction table) (simp_all add: defaultsOf_def unsetDefaults_def)

lemma accountsOf_unset_empty: "accountsOf u' (unsetDefaults u table) = [] \<longleftrightarrow> accountsOf u' table = []"
  by (induction table) (simp_all add: accountsOf_def unsetDefaults_def)

lemma defaultsOf_append: "defaultsOf u (xs @ ys) = defaultsOf u xs @ defaultsOf u ys"
  by (simp add: defaultsOf_def)

lemma accountsOf_append: "accountsOf u (xs @ ys) = accountsOf u xs @ accountsOf u ys"
  by (simp add: accountsOf_def)

lemma storeAccount_success:
  assumes "storeAccount c table user b d = (Inr account, table')"
  shows "userId account = user
     \<and> isDefault account = (findManyError c \<noteq> None \<or> accountsOf user table = [] \<or> data_isDefault d)
     \<and> table' =
         (if isDefault account \<and> updateManyError c = None then unsetDefaults user table else table)
         @ [account]"
  using assms
  by (auto simp: storeAccount_def Let_def accountsOf_def split: option.splits if_splits)

lemma createAccount_success:
  assumes "createAccount c table d = (Inr account, table')"
  shows "\<exists>b. storeAccount c table (userId account) b d = (Inr account, table')"
proof -
  from assms obtain user b where "storeAccount c table user b d = (Inr account, table')"
    by (auto simp: createAccount_def split: if_splits sum.splits option.splits)
  moreover from this have "userId account = user"
    using storeAccount_success by blast
  ultimately show ?thesis by blast
qed

lemma createAccount_failure:
  "createAccount c table d = (Inl msg, table') \<Longrightarrow> createError c = None \<Longrightarrow> table' = table"
  by (auto simp: createAccount_def storeAccount_def Let_def split: if_splits sum.splits option.splits)

text \<open>
  Claim C10, as the code has it. Take any call of \<^verbatim>\<open>createAccount\<close>, whether it
  succeeds or throws. When \<^verbatim>\<open>updateMany\<close> does not fail, and \<^verbatim>\<open>create\<close> does not
  fail after defaults have been cleared, the call keeps the invariant of every user: at most
  one default account, and a default account when there is any account. When the call
  succeeds, the new account is the default if the user has no account yet (or the accounts
  could not be read), whatever the input says; if the new account is the default and
  \<^verbatim>\<open>updateMany\<close> did not fail, the default flag of the user's other accounts has been
  cleared before the account was created and the new account is the user's only default;
  if \<^verbatim>\<open>updateMany\<close> failed, the failure is ignored and the table is the old one with
  the new account added.
\<close>

theorem createAccount_one_default:
  assumes "createAccount c table d = (res, table')"
  shows "(updateManyError c = None \<longrightarrow> createError c = None \<or> table' = table \<longrightarrow>
            (\<forall>u. oneDefault u table \<longrightarrow> oneDefault u table'))
     \<and> (\<forall>account. res = Inr account \<longrightarrow>
            (findManyError c \<noteq> None \<or> accountsOf (userId account) table = [] \<longrightarrow> isDefault account)
          \<and> (isDefault account \<longrightarrow> updateManyError c = None \<longrightarrow>
                table' = unsetDefaults (userId account) table @ [account] \<and>
                defaultsOf (userId account) table' = [account])
          \<and> (isDefault account \<longrightarrow> updateManyError c \<noteq> None \<longrightarrow> table' = table @ [account])
          \<and> (\<not> isDefault account \<longrightarrow> table' = table @ [account]))"
proof -
  have success: "(findManyError c \<noteq> None \<or> accountsOf (userId account) table = [] \<longrightarrow> isDefault account)
          \<and> (isDefault account \<longrightarrow> updateManyError c = None \<longrightarrow>
                table' = unsetDefaults (userId account) table @ [account] \<and>
                defaultsOf (userId account) table' = [account])
          \<and> (isDefault account \<longrightarrow> updateManyError c \<noteq> None \<longrightarrow> table' = table @ [account])
          \<and> (\<not> isDefault account \<longrightarrow> table' = table @ [account])
          \<and> (updateManyError c = None \<longrightarrow> (\<forall>u. oneDefault u table \<longrightarrow> oneDefault u table'))"
    if res: "res = Inr account" for account
  proof -
    let ?U = "userId account"
    obtain b where "storeAccount c table ?U b d = (Inr account, table')"
      using createAccount_success [of c table d account table'] assms res by blast
    from storeAccount_success [OF this]
    have dflt: "isDefault account = (findManyError c \<noteq> None \<or> accountsOf ?U table = [] \<or> data_isDefault d)"
      and tbl: "table' =
         (if isDefault account \<and> updateManyError c = None then unsetDefaults ?U table else table)
         @ [account]"
      by simp_all
    have own: "defaultsOf ?U [account] = (if isDefault account then [account] else [])"
        "accountsOf ?U [account] = [account]"
      by (simp_all add: defaultsOf_def accountsOf_def)
    have other: "defaultsOf u [account] = []" "accountsOf u [account] = []" if "u \<noteq> ?U" for u
      using that by (auto simp: defaultsOf_def accountsOf_def)
    have inv: "oneDefault u table'" if before: "oneDefault u table" and um: "updateManyError c = None" for u
    proof (cases "u = ?U")
      case True
      show ?thesis
      proof (cases "isDefault account")
        case True
        with \<open>u = ?U\<close> tbl own um show ?thesis
          by (simp add: oneDefault_def defaultsOf_append defaultsOf_unset_same)
      next
        case False
        with dflt have "accountsOf ?U table \<noteq> []" by simp
        with before \<open>u = ?U\<close> False tbl own show ?thesis
          by (simp add: oneDefault_def defaultsOf_append accountsOf_append)
      qed
    next
      case False
      with before tbl other [OF False] show ?thesis
        by (simp add: oneDefault_def defaultsOf_append accountsOf_append defaultsOf_unset_other
            accountsOf_unset_empty)
    qed
    have d1: "isDefault account \<longrightarrow> updateManyError c = None \<longrightarrow>
            table' = unsetDefaults ?U table @ [account] \<and> defaultsOf ?U table' = [account]"
      using tbl own by (simp add: defaultsOf_append defaultsOf_unset_same)
    have d2: "isDefault account \<longrightarrow> updateManyError c \<noteq> None \<longrightarrow> table' = table @ [account]"
      using tbl by simp
    have d3: "\<not> isDefault account \<longrightarrow> table' = table @ [account]"
      using tbl by simp
    from inv dflt d1 d2 d3 show ?thesis by blast
  qed
  have keep: "\<forall>u. oneDefault u table \<longrightarrow> oneDefault u table'"
    if um: "updateManyError c = None" and cr: "createError c = None \<or> table' = table"
  proof (cases res)
    case (Inr account)
    with success [of account] um show ?thesis by blast
  next
    case (Inl msg)
    with assms cr have "table' = table"
      using createAccount_failure [of c table d msg table'] by blast
    then show ?thesis by simp
  qed
  from keep success show ?thesis by blast
qed

theorem createAccount_one_default_witness:
  "createAccount healthy [savings] checkingInput =
     (Inr \<lparr>accountId = ''acc_2'', accountName = ''Checking'', accountType = ''CURRENT'',
           balance = 501 / 2, isDefault = True, userId = ''user_1''\<rparr>,
      [savings\<lparr>isDefault := False\<rparr>,
       \<lparr>accountId = ''acc_2'', accountName = ''Checking'', accountType = ''CURRENT'',
        balance = 501 / 2, isDefault = True, userId = ''user_1''\<rparr>])
   \<and> oneDefault ''user_1'' [savings]
   \<and> oneDefault ''user_1'' (snd (createAccount healthy [savings] checkingInput))
   \<and> defaultsOf ''user_1'' (snd (createAccount healthy [savings] checkingInput)) =
       [\<lparr>accountId = ''acc_2'', accountName = ''Checking'', accountType = ''CURRENT'',
         balance = 501 / 2, isDefault = True, userId = ''user_1''\<rparr>]"
proof -
  let ?new = "\<lparr>accountId = ''acc_2'', accountName = ''Checking'', accountType = ''CURRENT'',
           balance = 501 / 2, isDefault = True, userId = ''user_1''\<rparr>"
  let ?after = "[savings\<lparr>isDefault := False\<rparr>, ?new]"
  have r: "createAccount healthy [savings] checkingInput = (Inr ?new, ?after)"
    by (simp add: createAccount_def storeAccount_def healthy_def savings_def checkingInput_def
        unsetDefaults_def Let_def)
  have u: "updateManyError healthy = None" and cr: "createError healthy = None"
    by (simp_all add: healthy_def)
  have b: "oneDefault ''user_1'' [savings]"
    by (simp add: oneDefault_def defaultsOf_def accountsOf_def savings_def)
  have n: "isDefault ?new" "userId ?new = ''user_1''" by simp_all
  note main = createAccount_one_default [OF r]
  from main u cr b have 1: "oneDefault ''user_1'' ?after" by blast
  from main u n have 2: "defaultsOf ''user_1'' ?after = [?new]" by force
  from r b 1 2 show ?thesis by simp
qed

text \<open>
  When \<^verbatim>\<open>updateMany\<close> throws, the error is logged and the account is created all the
  same: the user ends up with two default accounts. And when \<^verbatim>\<open>updateMany\<close> has
  cleared the default and \<^verbatim>\<open>create\<close> then throws, the call fails and the user is left
  with an account and no default: the two calls are not in one transaction.
\<close>

theorem createAccount_two_defaults_counterexample:
  "oneDefault ''user_1'' [savings]
   \<and> createAccount (healthy\<lparr>updateManyError := Some ''Connection timed out''\<rparr>) [savings] checkingInput =
       (Inr \<lparr>accountId = ''acc_2'', accountName = ''Checking'', accountType = ''CURRENT'',
             balance = 501 / 2, isDefault = True, userId = ''user_1''\<rparr>,
        [savings,
         \<lparr>accountId = ''acc_2'', accountName = ''Checking'', accountType = ''CURRENT'',
          balance = 501 / 2, isDefault = True, userId = ''user_1''\<rparr>])
   \<and> length (defaultsOf ''user_1''
        (snd (createAccount (healthy\<lparr>updateManyError := Some ''Connection timed out''\<rparr>)
                [savings] checkingInput))) = 2
   \<and> createAccount (healthy\<lparr>createError := Some ''Connection timed out''\<rparr>) [savings] checkingInput =
       (Inl ''Failed to create account. Database connection issue.'', [savings\<lparr>isDefault := False\<rparr>])
   \<and> accountsOf ''user_1'' [savings\<lparr>isDefault := False\<rparr>] = [savings\<lparr>isDefault := False\<rparr>]
   \<and> defaultsOf ''user_1'' [savings\<lparr>isDefault := False\<rparr>] = []"
  by (simp add: createAccount_def storeAccount_def healthy_def savings_def checkingInput_def
      unsetDefaults_def oneDefault_def defaultsOf_def accountsOf_def Let_def)

end
